theory Spec2Isabelle
  imports Main
begin

section \<open>The FFIEC/NIC/FDIC downloader (ffiec\_nic\_downloader.py)\<close>

text \<open>
  The script fetches a fixed catalog of files over HTTP, unpacks zip archives, writes two
  instruction documents and a JSON manifest. Everything it does is an effect, so the model
  passes an explicit \<open>world\<close> (directories, files, the trace of GET requests, standard
  output) through every method, and reads the network, the zip reader and the clock from an
  \<open>env\<close>: they are the program's inputs.

  Modelling decisions, each stated where it is used:
  \<^item> paths (\<open>pathlib.Path\<close>) are lists of parts, \<open>p / name\<close> is \<open>p @ [name]\<close> for a name
    without slashes; a path is identified with its parts, so the output directory is taken
    without \<open>.\<close> and \<open>..\<close> parts and without symbolic links;
  \<^item> the filesystem calls of the script itself succeed (an \<open>OSError\<close> would end the run;
    none is caught anywhere); whether extracting an archive raises is an answer of the
    environment;
  \<^item> HTTP responses are well formed: a \<open>Content-Length\<close> header, when present, is a number,
    and the body of an API response decodes as JSON;
  \<^item> what the libraries do (\<open>requests\<close>, \<open>zipfile\<close>, \<open>csv\<close>) is written down as far as the
    script depends on it: which calls raise which exception, and what they return;
  \<^item> serialisers (\<open>json.dump\<close>, \<open>csv\<close>) are not unfolded: a written document is a
    constructor of \<open>content\<close> holding the value that was serialised;
  \<^item> log lines carry no timestamp, and the manifest's timestamp is the clock of the
    environment.
\<close>

subsection \<open>Paths, JSON values, file contents, the world\<close>

type_synonym path = "string list"

text \<open>
  A decoded JSON value. Numbers are integers here (a number matters to the script only
  through its truth value); an object is the list of its members in document order, without
  repeated keys, as the decoder leaves it.
\<close>

datatype json =
    JNull
  | JBool bool
  | JNum int
  | JStr string
  | JArr "json list"
  | JObj "(string \<times> json) list"

text \<open>
  What a file holds: raw bytes (a download, an extracted member), or a document the script
  serialised. What is printed: log lines, progress lines, plain prints.
\<close>

datatype content =
    Bytes string
  | JsonDump json
  | CsvFile "string list" "json list list"
  | TextFile string
  | ManifestDump string path "(string \<times> bool) list" "(string \<times> string) list"

datatype out_item =
    Log string
  | Progress nat nat
  | Newline
  | Print string

record world =
  dirs :: "path set"
  files :: "path \<rightharpoonup> content"
  gets :: "string list"
  out :: "out_item list"

text \<open>
  Exceptions that leave a method (none of them is caught in the program). The last four
  come out of extracting an archive: \<open>zlib.error\<close> on a damaged compressed stream,
  \<open>RuntimeError\<close> on an encrypted member, \<open>NotImplementedError\<close> on a compression
  method the library does not know, an \<open>OSError\<close> on a member that cannot be written
  (\<open>IsADirectoryError\<close> for a file member whose path is a directory, say).
\<close>

datatype exn =
    KeyError
  | TypeError
  | AttributeError
  | IndexError
  | ValueError
  | FileNotFoundError
  | ZlibError
  | RuntimeError
  | NotImplementedError
  | OSError

subsection \<open>The environment: network, zip reader, clock\<close>

text \<open>
  \<open>session.get(url, stream=True, timeout=120)\<close> either raises a
  \<open>requests.exceptions.RequestException\<close> (timeout, connection error, too many
  redirects) or returns a response with a status code, an optional \<open>Content-Length\<close>, and
  a body that streams as chunks and may break off with a \<open>RequestException\<close> after them.
\<close>

datatype http_result =
    RequestFailed string
  | Response nat "nat option" "string list" "string option"

datatype api_result =
    ApiFailed string
  | ApiResponse nat json

text \<open>
  What opening and extracting an archive does with the bytes of a file, as far as
  \<open>extract_zip\<close> can tell:
  \<^item> \<open>zipfile.ZipFile(zip_path)\<close> raises \<open>BadZipFile\<close> on opening;
  \<^item> \<open>extractall\<close> raises \<open>BadZipFile\<close> (a bad checksum, say) after it wrote some
    members;
  \<^item> an exception that is not a \<open>BadZipFile\<close> is raised, on opening or after
    \<open>extractall\<close> wrote some members: one of the reader (the three above) or one of
    writing a member;
  \<^item> the archive opens and \<open>extractall\<close> returns.
  Members are (name, bytes) pairs: the names as in \<open>namelist()\<close> and in its order, each
  with the bytes that extraction writes for it (for a member that fails while it is
  written, the bytes written until then).
\<close>

datatype zip_result =
    BadOnOpen string
  | BadOnExtract "(string \<times> string) list" string
  | ZipRaises "(string \<times> string) list" exn
  | ZipOk "(string \<times> string) list"

record env =
  http_get :: "string \<Rightarrow> http_result"
  api_get :: "string \<Rightarrow> (string \<times> string) list \<Rightarrow> api_result"
  zipfile :: "content \<Rightarrow> zip_result"
  now :: string

text \<open>
  \<open>Response.raise_for_status()\<close> of the requests library raises \<open>HTTPError\<close> exactly for
  the client and server error codes, 400 to 599; every other status passes.
\<close>

definition raise_for_status :: "nat \<Rightarrow> bool" where
  "raise_for_status status_code = (400 \<le> status_code \<and> status_code < 600)"

subsection \<open>Strings and paths\<close>

definition digit_char :: "nat \<Rightarrow> char" where
  "digit_char d = ''0123456789'' ! d"

fun str_nat :: "nat \<Rightarrow> string" where
  "str_nat n = (if n < 10 then [digit_char n] else str_nat (n div 10) @ [digit_char (n mod 10)])"

declare str_nat.simps [simp del]

fun str_path :: "path \<Rightarrow> string" where
  "str_path [] = ''.''"
| "str_path [c] = c"
| "str_path (c # cs) = c @ ''/'' @ str_path cs"

definition startswith :: "string \<Rightarrow> string \<Rightarrow> bool" where
  "startswith s pre = (take (length pre) s = pre)"

text \<open>\<open>needle in haystack\<close> on Python strings: a contiguous substring.\<close>

fun str_contains :: "string \<Rightarrow> string \<Rightarrow> bool" where
  "str_contains [] needle = (needle = [])"
| "str_contains (c # cs) needle = (startswith (c # cs) needle \<or> str_contains cs needle)"

text \<open>
  \<open>Path(name).stem\<close>: the name without its last suffix; a name has a suffix when its last
  dot is neither its first nor its last character.
\<close>

fun rfind_dot :: "string \<Rightarrow> nat option" where
  "rfind_dot [] = None"
| "rfind_dot (c # cs) =
     (case rfind_dot cs of
        Some i \<Rightarrow> Some (Suc i)
      | None \<Rightarrow> if c = CHR ''.'' then Some 0 else None)"

definition stem :: "string \<Rightarrow> string" where
  "stem nm =
     (case rfind_dot nm of
        None \<Rightarrow> nm
      | Some i \<Rightarrow> if 0 < i \<and> i < length nm - 1 then take i nm else nm)"

subsection \<open>Filesystem primitives\<close>

text \<open>\<open>p.mkdir(exist_ok=True)\<close> and \<open>p.mkdir(parents=True, exist_ok=True)\<close>.\<close>

definition mkdir :: "path \<Rightarrow> world \<Rightarrow> world" where
  "mkdir p w = w\<lparr>dirs := insert p (dirs w)\<rparr>"

definition ancestors_and_self :: "path \<Rightarrow> path list" where
  "ancestors_and_self p = map (\<lambda>n. take n p) [1..<Suc (length p)]"

definition mkdir_parents :: "path \<Rightarrow> world \<Rightarrow> world" where
  "mkdir_parents p w = w\<lparr>dirs := dirs w \<union> set (ancestors_and_self p)\<rparr>"

definition write_file :: "path \<Rightarrow> content \<Rightarrow> world \<Rightarrow> world" where
  "write_file p c w = w\<lparr>files := (files w)(p \<mapsto> c)\<rparr>"

definition print :: "string \<Rightarrow> world \<Rightarrow> world" where
  "print s w = w\<lparr>out := out w @ [Print s]\<rparr>"

subsection \<open>The source catalog\<close>

record source =
  name :: string
  description :: string
  url :: string
  format :: string
  direct_download :: bool
  filename :: string

definition DATA_SOURCES :: "(string \<times> source) list" where
  "DATA_SOURCES =
   [(''fdic_failed_banks'',
      \<lparr>name = ''FDIC Failed Bank List'',
       description = ''List of all FDIC-insured banks that have failed since October 1, 2000'',
       url = ''https://www.fdic.gov/bank-failures/download-data.csv'',
       format = ''csv'', direct_download = True,
       filename = ''fdic_failed_banks.csv''\<rparr>),
    (''fdic_failed_banks_legacy'',
      \<lparr>name = ''FDIC Failed Bank List (Legacy URL)'',
       description = ''Alternative URL for failed bank list'',
       url = ''https://www.fdic.gov/resources/resolutions/bank-failures/failed-bank-list/banklist.csv'',
       format = ''csv'', direct_download = True,
       filename = ''fdic_failed_banks_legacy.csv''\<rparr>),
    (''nic_data_dictionary'',
      \<lparr>name = ''NIC Data Dictionary'',
       description = ''Documentation for NIC bulk data tables (Attributes, Relationships, Transformations)'',
       url = ''https://www.ffiec.gov/npw/StaticData/DataDownload/NPW%20Data%20Dictionary.pdf'',
       format = ''pdf'', direct_download = True,
       filename = ''NPW_Data_Dictionary.pdf''\<rparr>),
    (''nic_attributes_csv'',
      \<lparr>name = ''NIC Attributes Table (CSV)'',
       description = ''Institution attributes data - entity characteristics'',
       url = ''https://www.ffiec.gov/npw/StaticData/DataDownload/CSV/CSV_ATTRIBUTES_ACTIVE.zip'',
       format = ''zip'', direct_download = True,
       filename = ''NIC_Attributes_Active.zip''\<rparr>),
    (''nic_attributes_closed_csv'',
      \<lparr>name = ''NIC Attributes Table - Closed Institutions (CSV)'',
       description = ''Attributes for closed/failed institutions'',
       url = ''https://www.ffiec.gov/npw/StaticData/DataDownload/CSV/CSV_ATTRIBUTES_CLOSED.zip'',
       format = ''zip'', direct_download = True,
       filename = ''NIC_Attributes_Closed.zip''\<rparr>),
    (''nic_attributes_branches_csv'',
      \<lparr>name = ''NIC Attributes Table - Branches (CSV)'',
       description = ''Branch office attributes'',
       url = ''https://www.ffiec.gov/npw/StaticData/DataDownload/CSV/CSV_ATTRIBUTES_BRANCHES.zip'',
       format = ''zip'', direct_download = True,
       filename = ''NIC_Attributes_Branches.zip''\<rparr>),
    (''nic_relationships_csv'',
      \<lparr>name = ''NIC Relationships Table (CSV)'',
       description = ''Ownership relationships between institutions'',
       url = ''https://www.ffiec.gov/npw/StaticData/DataDownload/CSV/CSV_RELATIONSHIPS.zip'',
       format = ''zip'', direct_download = True,
       filename = ''NIC_Relationships.zip''\<rparr>),
    (''nic_transformations_csv'',
      \<lparr>name = ''NIC Transformations Table (CSV)'',
       description = ''Mergers, acquisitions, and other transformation events'',
       url = ''https://www.ffiec.gov/npw/StaticData/DataDownload/CSV/CSV_TRANSFORMATIONS.zip'',
       format = ''zip'', direct_download = True,
       filename = ''NIC_Transformations.zip''\<rparr>)]"

definition FDIC_API_BASE :: string where
  "FDIC_API_BASE = ''https://banks.data.fdic.gov/api''"

subsection \<open>The downloader object\<close>

record downloader =
  output_dir :: path
  verbose :: bool

text \<open>
  \<open>FFIECDownloader.__init__\<close>: stores the configuration and creates the output directory
  (with its parents) and its four subdirectories.
\<close>

definition init :: "path \<Rightarrow> bool \<Rightarrow> world \<Rightarrow> downloader \<times> world" where
  "init out_dir verb w =
     (let self = \<lparr>output_dir = out_dir, verbose = verb\<rparr>;
          w1 = mkdir_parents out_dir w;
          w2 = mkdir (out_dir @ [''fdic'']) w1;
          w3 = mkdir (out_dir @ [''nic'']) w2;
          w4 = mkdir (out_dir @ [''chicago_fed'']) w3;
          w5 = mkdir (out_dir @ [''metadata'']) w4
      in (self, w5))"

text \<open>\<open>log\<close>: prints only in verbose mode (the timestamp prefix is left out).\<close>

definition log :: "downloader \<Rightarrow> string \<Rightarrow> world \<Rightarrow> world" where
  "log self message w = (if verbose self then w\<lparr>out := out w @ [Log message]\<rparr> else w)"


subsection \<open>download\_file\<close>

text \<open>\<open>f.write(chunk)\<close> on the file opened at \<open>p\<close>.\<close>

definition append_bytes :: "path \<Rightarrow> string \<Rightarrow> world \<Rightarrow> world" where
  "append_bytes p chunk w =
     write_file p (Bytes ((case files w p of Some (Bytes b) \<Rightarrow> b | _ \<Rightarrow> []) @ chunk)) w"

text \<open>
  The loop over \<open>response.iter_content(chunk_size=8192)\<close>: empty chunks are skipped, the
  others are written and counted; the progress line is printed only in verbose mode and only
  when the response announced a positive length.
\<close>

fun write_chunks :: "downloader \<Rightarrow> path \<Rightarrow> nat \<Rightarrow> string list \<Rightarrow> nat \<Rightarrow> world \<Rightarrow> world" where
  "write_chunks self p total_size [] downloaded w = w"
| "write_chunks self p total_size (chunk # rest) downloaded w =
     (if chunk \<noteq> [] then
        let w1 = append_bytes p chunk w;
            downloaded' = downloaded + length chunk;
            w2 = (if verbose self \<and> total_size > 0
                  then w1\<lparr>out := out w1 @ [Progress downloaded' total_size]\<rparr> else w1)
        in write_chunks self p total_size rest downloaded' w2
      else write_chunks self p total_size rest downloaded w)"

definition download_error :: "string \<Rightarrow> string \<Rightarrow> string" where
  "download_error u msg = ''  ERROR: Failed to download '' @ u @ '': '' @ msg"

definition http_error_text :: "nat \<Rightarrow> string \<Rightarrow> string" where
  "http_error_text status_code u = str_nat status_code @ '' Error for url: '' @ u"

text \<open>
  \<open>download_file\<close>: every \<open>RequestException\<close> (from \<open>get\<close>, from \<open>raise_for_status\<close>,
  from the body stream) is caught, logged and turned into \<open>False\<close>. The file is opened
  (and so created or truncated) only after the status check.
\<close>

definition download_file ::
    "env \<Rightarrow> downloader \<Rightarrow> string \<Rightarrow> path \<Rightarrow> string \<Rightarrow> world \<Rightarrow> bool \<times> world" where
  "download_file e self u output_path descr w =
     (let w1 = log self (''Downloading: '' @ (if descr \<noteq> [] then descr else u)) w;
          w2 = w1\<lparr>gets := gets w1 @ [u]\<rparr>
      in case http_get e u of
           RequestFailed msg \<Rightarrow> (False, log self (download_error u msg) w2)
         | Response status_code content_length chunks broken \<Rightarrow>
             if raise_for_status status_code
             then (False, log self (download_error u (http_error_text status_code u)) w2)
             else
               let total_size = (case content_length of None \<Rightarrow> 0 | Some n \<Rightarrow> n);
                   w3 = write_file output_path (Bytes []) w2;
                   w4 = write_chunks self output_path total_size chunks 0 w3
               in case broken of
                    Some msg \<Rightarrow> (False, log self (download_error u msg) w4)
                  | None \<Rightarrow>
                      let w5 = (if verbose self \<and> total_size > 0
                                then w4\<lparr>out := out w4 @ [Newline]\<rparr> else w4)
                      in (True, log self (''  Saved to: '' @ str_path output_path) w5))"

subsection \<open>extract\_zip\<close>

text \<open>
  Member names are POSIX paths inside the archive. \<open>split_slash\<close> is \<open>name.split('/')\<close>.
\<close>

fun split_slash :: "string \<Rightarrow> string list" where
  "split_slash [] = [[]]"
| "split_slash (c # cs) =
     (if c = CHR ''/'' then [] # split_slash cs
      else case split_slash cs of [] \<Rightarrow> [[c]] | x # xs \<Rightarrow> (c # x) # xs)"

text \<open>
  \<open>ZipFile._extract_member\<close>, for a member that is written without an exception: the
  member's path below the target directory is its name without empty, \<open>.\<close> and \<open>..\<close>
  components (so an absolute name or one that climbs out lands inside the target
  directory); all directories above that path are created; a name that ends with a slash is
  a directory entry and becomes a directory, any other member becomes a file with the
  member's bytes.
\<close>

definition arcname :: "string \<Rightarrow> path" where
  "arcname nm = filter (\<lambda>x. x \<noteq> [] \<and> x \<noteq> ''.'' \<and> x \<noteq> ''..'') (split_slash nm)"

definition is_dir :: "string \<Rightarrow> bool" where
  "is_dir nm = (nm \<noteq> [] \<and> last nm = CHR ''/'')"

definition makedirs :: "path \<Rightarrow> world \<Rightarrow> world" where
  "makedirs p w = w\<lparr>dirs := dirs w \<union> set (ancestors_and_self p)\<rparr>"

definition extract_member :: "path \<Rightarrow> string \<times> string \<Rightarrow> world \<Rightarrow> world" where
  "extract_member targetdir member w =
     (let targetpath = targetdir @ arcname (fst member);
          upperdirs = butlast targetpath;
          w1 = makedirs upperdirs w
      in if is_dir (fst member) then mkdir targetpath w1
         else write_file targetpath (Bytes (snd member)) w1)"

text \<open>\<open>zf.extractall(extract_dir)\<close>: the members one after the other.\<close>

fun extractall :: "path \<Rightarrow> (string \<times> string) list \<Rightarrow> world \<Rightarrow> world" where
  "extractall extract_dir [] w = w"
| "extractall extract_dir (member # members) w =
     extractall extract_dir members (extract_member extract_dir member w)"

text \<open>
  \<open>extract_dir / name\<close> of \<open>pathlib\<close>, for a name that may hold slashes: empty and \<open>.\<close>
  components are dropped, \<open>..\<close> is kept, and an absolute name replaces the directory (its
  first part is the root, \<open>//\<close> for exactly two leading slashes).
\<close>

definition pjoin :: "path \<Rightarrow> string \<Rightarrow> path" where
  "pjoin p nm =
     (let parts = filter (\<lambda>x. x \<noteq> [] \<and> x \<noteq> ''.'') (split_slash nm)
      in if startswith nm ''/''
         then (if startswith nm ''//'' \<and> \<not> startswith nm ''///'' then ''//'' else ''/'') # parts
         else p @ parts)"

text \<open>
  \<open>extract_zip\<close>: \<open>extracted\<close> starts empty and is assigned only after \<open>extractall\<close>
  returned, so a \<open>BadZipFile\<close> from either call leaves it empty. Only \<open>BadZipFile\<close> is
  caught: any other exception leaves the method with what was written until then, and so
  does the \<open>FileNotFoundError\<close> for a missing archive file.
\<close>

definition extract_zip ::
    "env \<Rightarrow> downloader \<Rightarrow> path \<Rightarrow> path \<Rightarrow> world \<Rightarrow> (exn + path list) \<times> world" where
  "extract_zip e self zip_path extract_dir w =
     (case files w zip_path of
        None \<Rightarrow> (Inl FileNotFoundError, w)
      | Some c \<Rightarrow>
          (case zipfile e c of
             BadOnOpen msg \<Rightarrow>
               (Inr [], log self (''  ERROR: Bad zip file '' @ str_path zip_path @ '': '' @ msg) w)
           | BadOnExtract written msg \<Rightarrow>
               (Inr [], log self (''  ERROR: Bad zip file '' @ str_path zip_path @ '': '' @ msg)
                          (extractall extract_dir written w))
           | ZipRaises written x \<Rightarrow> (Inl x, extractall extract_dir written w)
           | ZipOk members \<Rightarrow>
               let w1 = extractall extract_dir members w;
                   extracted = map (pjoin extract_dir) (map fst members)
               in (Inr extracted,
                   log self (''  Extracted '' @ str_nat (length extracted) @ '' files to ''
                             @ str_path extract_dir) w1)))"

subsection \<open>Sequencing methods that may raise\<close>

definition seq ::
    "(exn + 'a) \<times> world \<Rightarrow> ('a \<Rightarrow> world \<Rightarrow> (exn + 'b) \<times> world) \<Rightarrow> (exn + 'b) \<times> world" where
  "seq r f = (case r of (Inl x, w) \<Rightarrow> (Inl x, w) | (Inr v, w) \<Rightarrow> f v w)"

definition returns :: "'a \<times> world \<Rightarrow> (exn + 'a) \<times> world" where
  "returns r = (Inr (fst r), snd r)"

subsection \<open>FDIC downloads\<close>

definition banner :: "downloader \<Rightarrow> string \<Rightarrow> world \<Rightarrow> world" where
  "banner self title w =
     log self (replicate 60 CHR ''='') (log self title (log self (replicate 60 CHR ''='') w))"

text \<open>\<open>source = DATA_SOURCES[key]\<close>.\<close>

definition lookup_source :: "string \<Rightarrow> exn + source" where
  "lookup_source key = (case map_of DATA_SOURCES key of None \<Rightarrow> Inl KeyError | Some s \<Rightarrow> Inr s)"

text \<open>
  The loop of \<open>download_fdic_failed_banks\<close>: no \<open>break\<close>, a failed download only clears
  \<open>success\<close>.
\<close>

fun failed_banks_loop ::
    "env \<Rightarrow> downloader \<Rightarrow> string list \<Rightarrow> bool \<Rightarrow> world \<Rightarrow> (exn + bool) \<times> world" where
  "failed_banks_loop e self [] success w = (Inr success, w)"
| "failed_banks_loop e self (key # keys) success w =
     (case lookup_source key of
        Inl x \<Rightarrow> (Inl x, w)
      | Inr src \<Rightarrow>
          let output_path = output_dir self @ [''fdic'', filename src];
              (ok, w1) = download_file e self (url src) output_path (name src) w
          in failed_banks_loop e self keys (if \<not> ok then False else success) w1)"

definition download_fdic_failed_banks ::
    "env \<Rightarrow> downloader \<Rightarrow> world \<Rightarrow> (exn + bool) \<times> world" where
  "download_fdic_failed_banks e self w =
     failed_banks_loop e self [''fdic_failed_banks'', ''fdic_failed_banks_legacy''] True
       (banner self ''Downloading FDIC Failed Banks Data'' w)"

text \<open>\<open>params[key] = value\<close> on a dict kept in insertion order.\<close>

fun dict_set :: "string \<Rightarrow> 'v \<Rightarrow> (string \<times> 'v) list \<Rightarrow> (string \<times> 'v) list" where
  "dict_set k v [] = [(k, v)]"
| "dict_set k v ((k', v') # d) = (if k' = k then (k, v) # d else (k', v') # dict_set k v d)"

definition download_fdic_api_data ::
    "env \<Rightarrow> downloader \<Rightarrow> string \<Rightarrow> (string \<times> string) list option \<Rightarrow> nat \<Rightarrow> world
     \<Rightarrow> json option \<times> world" where
  "download_fdic_api_data e self endpoint params limit w =
     (let u = FDIC_API_BASE @ endpoint;
          params1 = (case params of None \<Rightarrow> [] | Some d \<Rightarrow> d);
          params2 = dict_set ''limit'' (str_nat limit) params1;
          params3 = dict_set ''format'' ''json'' params2;
          w1 = log self (''Fetching from FDIC API: '' @ endpoint) w;
          w2 = w1\<lparr>gets := gets w1 @ [u]\<rparr>
      in case api_get e u params3 of
           ApiFailed msg \<Rightarrow> (None, log self (''  ERROR: API request failed: '' @ msg) w2)
         | ApiResponse status_code body \<Rightarrow>
             if raise_for_status status_code
             then (None, log self (''  ERROR: API request failed: ''
                                     @ http_error_text status_code u) w2)
             else (Some body, w2))"

text \<open>Python's truth value, \<open>in\<close>, subscripting and \<open>keys()\<close> on a decoded JSON value.\<close>

fun truthy :: "json \<Rightarrow> bool" where
  "truthy JNull = False"
| "truthy (JBool b) = b"
| "truthy (JNum n) = (n \<noteq> 0)"
| "truthy (JStr s) = (s \<noteq> [])"
| "truthy (JArr xs) = (xs \<noteq> [])"
| "truthy (JObj kvs) = (kvs \<noteq> [])"

fun py_in :: "string \<Rightarrow> json \<Rightarrow> exn + bool" where
  "py_in k (JObj kvs) = Inr (k \<in> set (map fst kvs))"
| "py_in k (JArr xs) = Inr (JStr k \<in> set xs)"
| "py_in k (JStr s) = Inr (str_contains s k)"
| "py_in k _ = Inl TypeError"

fun getitem :: "json \<Rightarrow> string \<Rightarrow> exn + json" where
  "getitem (JObj kvs) k = (case map_of kvs k of None \<Rightarrow> Inl KeyError | Some v \<Rightarrow> Inr v)"
| "getitem _ k = Inl TypeError"

fun getitem0 :: "json \<Rightarrow> exn + json" where
  "getitem0 (JArr (x # xs)) = Inr x"
| "getitem0 (JArr []) = Inl IndexError"
| "getitem0 (JStr (c # cs)) = Inr (JStr [c])"
| "getitem0 (JStr []) = Inl IndexError"
| "getitem0 (JObj kvs) = Inl KeyError"
| "getitem0 _ = Inl TypeError"

fun py_keys :: "json \<Rightarrow> exn + string list" where
  "py_keys (JObj kvs) = Inr (map fst kvs)"
| "py_keys _ = Inl AttributeError"

fun iter_rows :: "json \<Rightarrow> json list" where
  "iter_rows (JArr xs) = xs"
| "iter_rows _ = []"

text \<open>
  \<open>csv.DictWriter(f, fieldnames=headers).writerows(records)\<close>: a row must be a dict whose
  keys are all field names (else \<open>ValueError\<close>); a missing field is written as the empty
  string. Rows are written one by one, so the rows before a bad one stay in the file.
\<close>

fun dict_to_list :: "string list \<Rightarrow> json \<Rightarrow> exn + json list" where
  "dict_to_list headers (JObj kvs) =
     (if \<exists>k \<in> set (map fst kvs). k \<notin> set headers then Inl ValueError
      else Inr (map (\<lambda>h. case map_of kvs h of None \<Rightarrow> JStr [] | Some v \<Rightarrow> v) headers))"
| "dict_to_list headers _ = Inl AttributeError"

fun writerows :: "string list \<Rightarrow> json list \<Rightarrow> json list list \<times> exn option" where
  "writerows headers [] = ([], None)"
| "writerows headers (rowdict # rest) =
     (case dict_to_list headers rowdict of
        Inl x \<Rightarrow> ([], Some x)
      | Inr row \<Rightarrow> let (rows, err) = writerows headers rest in (row # rows, err))"

definition json_to_csv ::
    "downloader \<Rightarrow> json \<Rightarrow> path \<Rightarrow> world \<Rightarrow> (exn + unit) \<times> world" where
  "json_to_csv self records output_path w =
     (if \<not> truthy records then (Inr (), w)
      else case getitem0 records of
             Inl x \<Rightarrow> (Inl x, w)
           | Inr first \<Rightarrow>
               (case py_keys first of
                  Inl x \<Rightarrow> (Inl x, w)
                | Inr headers \<Rightarrow>
                    let (rows, err) = writerows headers (iter_rows records);
                        w1 = write_file output_path (CsvFile headers rows) w
                    in case err of
                         Some x \<Rightarrow> (Inl x, w1)
                       | None \<Rightarrow> (Inr (), log self (''  Saved CSV: '' @ str_path output_path) w1)))"

text \<open>
  \<open>download_fdic_failures_api\<close>: the raw JSON is saved when the decoded document is truthy;
  the CSV is attempted only when the document has a \<open>data\<close> member.
\<close>

definition download_fdic_failures_api ::
    "env \<Rightarrow> downloader \<Rightarrow> world \<Rightarrow> (exn + bool) \<times> world" where
  "download_fdic_failures_api e self w =
     (let w1 = log self ''Downloading FDIC Failures via API...'' w;
          (data, w2) = download_fdic_api_data e self ''/failures'' None 10000 w1
      in case data of
           None \<Rightarrow> (Inr False, w2)
         | Some d \<Rightarrow>
             if \<not> truthy d then (Inr False, w2)
             else
               let output_path = output_dir self @ [''fdic'', ''fdic_failures_api.json''];
                   w3 = write_file output_path (JsonDump d) w2;
                   w4 = log self (''  Saved API data to: '' @ str_path output_path) w3
               in case py_in ''data'' d of
                    Inl x \<Rightarrow> (Inl x, w4)
                  | Inr False \<Rightarrow> (Inr True, w4)
                  | Inr True \<Rightarrow>
                      (case getitem d ''data'' of
                         Inl x \<Rightarrow> (Inl x, w4)
                       | Inr records \<Rightarrow>
                           seq (json_to_csv self records
                                  (output_dir self @ [''fdic'', ''fdic_failures_api.csv'']) w4)
                               (\<lambda>_ w5. (Inr True, w5))))"

subsection \<open>NIC downloads\<close>

definition nic_sources :: "string list" where
  "nic_sources = filter (\<lambda>k. startswith k ''nic_'') (map fst DATA_SOURCES)"

text \<open>
  The loop of \<open>download_nic_data\<close>, its body first (the boolean says whether the download
  succeeded). Only a download that returned \<open>True\<close> is looked at further, and only a source
  of format \<open>zip\<close> is extracted, into the directory named by the stem of its file name; the
  list \<open>extract_zip\<close> returns is dropped.
\<close>

definition nic_body :: "env \<Rightarrow> downloader \<Rightarrow> source \<Rightarrow> world \<Rightarrow> (exn + bool) \<times> world" where
  "nic_body e self src w =
     (let output_path = output_dir self @ [''nic'', filename src];
          (ok, w1) = download_file e self (url src) output_path (name src) w
      in if ok then
           if format src = ''zip'' then
             let extract_dir = output_dir self @ [''nic'', stem (filename src)];
                 w2 = mkdir extract_dir w1
             in seq (extract_zip e self output_path extract_dir w2) (\<lambda>_ w3. (Inr True, w3))
           else (Inr True, w1)
         else (Inr False, w1))"

fun nic_loop ::
    "env \<Rightarrow> downloader \<Rightarrow> string list \<Rightarrow> bool \<Rightarrow> world \<Rightarrow> (exn + bool) \<times> world" where
  "nic_loop e self [] success w = (Inr success, w)"
| "nic_loop e self (key # keys) success w =
     (case lookup_source key of
        Inl x \<Rightarrow> (Inl x, w)
      | Inr src \<Rightarrow>
          seq (nic_body e self src w)
            (\<lambda>ok w1. nic_loop e self keys (if ok then success else False) w1))"

definition download_nic_data :: "env \<Rightarrow> downloader \<Rightarrow> world \<Rightarrow> (exn + bool) \<times> world" where
  "download_nic_data e self w =
     nic_loop e self nic_sources True (banner self ''Downloading FFIEC NIC Bulk Data'' w)"

subsection \<open>Chicago Fed and CDR instruction documents\<close>

text \<open>
  Both methods write a fixed text and return \<open>True\<close>. The texts are long literals with no
  dynamic part; the model keeps their title lines.
\<close>

definition chicago_fed_instructions :: string where
  "chicago_fed_instructions = ''# Chicago Fed Commercial Bank Data (1976-2000)''"

definition cdr_instructions :: string where
  "cdr_instructions = ''# FFIEC Central Data Repository (CDR) Bulk Downloads''"

definition download_chicago_fed_data :: "downloader \<Rightarrow> world \<Rightarrow> bool \<times> world" where
  "download_chicago_fed_data self w =
     (let w1 = banner self ''Downloading Chicago Fed Historical Data (1976-2000)'' w;
          w2 = fold (log self)
                 [''NOTE: Chicago Fed historical data (1976-2000) is in SAS XPORT format.'',
                  ''      Direct download URLs are not available - visit:'',
                  ''      https://www.chicagofed.org/banking/financial-institution-reports/commercial-bank-data'',
                  [],
                  ''To read SAS XPORT files in Python, use:'',
                  ''  pip install pyreadstat'',
                  ''  import pyreadstat'',
                  ''  df, meta = pyreadstat.read_xport('filename.xpt')''] w1;
          instructions_path = output_dir self @ [''chicago_fed'', ''DOWNLOAD_INSTRUCTIONS.md''];
          w3 = write_file instructions_path (TextFile chicago_fed_instructions) w2
      in (True, log self (''  Saved instructions to: '' @ str_path instructions_path) w3))"

definition download_cdr_info :: "downloader \<Rightarrow> world \<Rightarrow> bool \<times> world" where
  "download_cdr_info self w =
     (let w1 = banner self ''FFIEC CDR Bulk Download Information'' w;
          instructions_path = output_dir self @ [''metadata'', ''FFIEC_CDR_INSTRUCTIONS.md''];
          w2 = write_file instructions_path (TextFile cdr_instructions) w1
      in (True, log self (''  Saved CDR instructions to: '' @ str_path instructions_path) w2))"

subsection \<open>The full sequence and the manifest\<close>

definition manifest_path :: "downloader \<Rightarrow> path" where
  "manifest_path self = output_dir self @ [''metadata'', ''download_manifest.json'']"

definition save_manifest :: "env \<Rightarrow> downloader \<Rightarrow> (string \<times> bool) list \<Rightarrow> world \<Rightarrow> world" where
  "save_manifest e self results w =
     (let manifest = ManifestDump (now e) (output_dir self) results
                       (map (\<lambda>(k, v). (k, description v)) DATA_SOURCES)
      in log self (''Saved manifest to: '' @ str_path (manifest_path self))
           (write_file (manifest_path self) manifest w))"

text \<open>
  \<open>download_all\<close>: five steps in a fixed order, each result stored under its key, then the
  manifest. No step's result decides whether the next one runs; only an exception stops the
  sequence.
\<close>

definition download_all ::
    "env \<Rightarrow> downloader \<Rightarrow> world \<Rightarrow> (exn + (string \<times> bool) list) \<times> world" where
  "download_all e self w =
     seq (download_fdic_failed_banks e self w) (\<lambda>r1 w1.
     seq (download_fdic_failures_api e self w1) (\<lambda>r2 w2.
     seq (download_nic_data e self w2) (\<lambda>r3 w3.
     seq (returns (download_chicago_fed_data self w3)) (\<lambda>r4 w4.
     seq (returns (download_cdr_info self w4)) (\<lambda>r5 w5.
       let results = dict_set ''cdr_info'' r5
                      (dict_set ''chicago_fed_info'' r4
                        (dict_set ''nic_data'' r3
                          (dict_set ''fdic_api'' r2
                            (dict_set ''fdic_failed_banks'' r1 []))))
       in (Inr results, save_manifest e self results w5))))))"

subsection \<open>list\_sources and main\<close>

definition print_source :: "source \<Rightarrow> world \<Rightarrow> world" where
  "print_source src w =
     fold print [''  * '' @ name src, ''    '' @ description src, ''    URL: '' @ url src, []] w"

text \<open>\<open>list_sources\<close> only prints (the bullet character is written as an asterisk).\<close>

definition list_sources :: "downloader \<Rightarrow> world \<Rightarrow> world" where
  "list_sources self w =
     (let w1 = fold print [CHR 0x0A # replicate 70 CHR ''='', ''AVAILABLE DATA SOURCES'',
                           replicate 70 CHR ''='',
                           CHR 0x0A # ''[FDIC - Federal Deposit Insurance Corporation]''] w;
          w2 = fold print_source
                 (map snd (filter (\<lambda>(k, v). startswith k ''fdic'') DATA_SOURCES)) w1;
          w3 = print (CHR 0x0A # ''[NIC - National Information Center]'') w2;
          w4 = fold print_source
                 (map snd (filter (\<lambda>(k, v). startswith k ''nic'') DATA_SOURCES)) w3
      in fold print
           [CHR 0x0A # ''[Chicago Fed - Historical Data]'',
            ''  * Commercial Bank Data (1976-2000)'',
            ''    Quarterly call report data in SAS XPORT format'',
            ''    URL: https://www.chicagofed.org/banking/financial-institution-reports/commercial-bank-data'',
            [],
            CHR 0x0A # ''[FFIEC CDR - Central Data Repository]'',
            ''  * Call Reports Bulk Download (2001-present)'',
            ''    Requires browser interaction - no direct download URL'',
            ''    URL: https://cdr.ffiec.gov/public/pws/downloadbulkdata.aspx'',
            []] w4)"

record args =
  arg_all :: bool
  arg_fdic :: bool
  arg_nic :: bool
  arg_chicago_fed :: bool
  arg_cdr :: bool
  arg_list :: bool
  arg_output_dir :: path
  arg_quiet :: bool

definition print_summary :: "(string \<times> bool) list \<Rightarrow> world \<Rightarrow> world" where
  "print_summary results w =
     fold print
       (map (\<lambda>(src, success). ''  '' @ src @ '': '' @ (if success then ''Success'' else ''Failed''))
          results)
       (fold print [CHR 0x0A # replicate 50 CHR ''='', ''DOWNLOAD SUMMARY'',
                    replicate 50 CHR ''=''] w)"

definition run_if ::
    "bool \<Rightarrow> (world \<Rightarrow> (exn + unit) \<times> world) \<Rightarrow> world \<Rightarrow> (exn + unit) \<times> world" where
  "run_if b f w = (if b then f w else (Inr (), w))"

text \<open>
  \<open>main\<close>: the downloader is constructed (and its directories created) before any flag is
  looked at; \<open>--list\<close> and \<open>--all\<close> return early; the single flags run in a fixed order;
  with no download flag the usage text is printed.
\<close>

definition main :: "env \<Rightarrow> args \<Rightarrow> world \<Rightarrow> (exn + unit) \<times> world" where
  "main e a w =
     (let (downloader, w0) = init (arg_output_dir a) (\<not> arg_quiet a) w
      in if arg_list a then (Inr (), list_sources downloader w0)
         else if arg_all a then
           seq (download_all e downloader w0) (\<lambda>results w1. (Inr (), print_summary results w1))
         else
           seq (run_if (arg_fdic a) (\<lambda>w1.
                  seq (download_fdic_failed_banks e downloader w1) (\<lambda>_ w2.
                  seq (download_fdic_failures_api e downloader w2) (\<lambda>_ w3. (Inr (), w3)))) w0)
             (\<lambda>_ w1.
           seq (run_if (arg_nic a) (\<lambda>w2.
                  seq (download_nic_data e downloader w2) (\<lambda>_ w3. (Inr (), w3))) w1)
             (\<lambda>_ w2.
           seq (run_if (arg_chicago_fed a) (\<lambda>w3.
                  (Inr (), snd (download_chicago_fed_data downloader w3))) w2)
             (\<lambda>_ w3.
           seq (run_if (arg_cdr a) (\<lambda>w4.
                  (Inr (), snd (download_cdr_info downloader w4))) w3)
             (\<lambda>_ w4.
               if \<not> (arg_all a \<or> arg_fdic a \<or> arg_nic a \<or> arg_chicago_fed a \<or> arg_cdr a)
               then (Inr (), print ''usage: ffiec_nic_downloader.py [-h] ...'' w4)
               else (Inr (), w4))))))"

section \<open>Vocabulary of the properties\<close>

subsection \<open>Transport outcomes\<close>

text \<open>
  A download fails at transport level when the library raises a \<open>RequestException\<close>: from
  \<open>session.get\<close>, from \<open>raise_for_status\<close>, or from the body stream.
\<close>

definition transport_failure :: "http_result \<Rightarrow> bool" where
  "transport_failure r =
     (case r of
        RequestFailed msg \<Rightarrow> True
      | Response status_code content_length chunks broken \<Rightarrow>
          raise_for_status status_code \<or> broken \<noteq> None)"

text \<open>
  The one request of the API step, and the decoded document it hands to
  \<open>download_fdic_failures_api\<close> (\<open>None\<close> when the request failed).
\<close>

definition failures_url :: string where
  "failures_url = FDIC_API_BASE @ ''/failures''"

definition failures_params :: "(string \<times> string) list" where
  "failures_params = [(''limit'', ''10000''), (''format'', ''json'')]"

definition api_document :: "env \<Rightarrow> json option" where
  "api_document e =
     (case api_get e failures_url failures_params of
        ApiFailed msg \<Rightarrow> None
      | ApiResponse status_code body \<Rightarrow> if raise_for_status status_code then None else Some body)"

subsection \<open>API documents\<close>

definition json_path :: "downloader \<Rightarrow> path" where
  "json_path self = output_dir self @ [''fdic'', ''fdic_failures_api.json'']"

definition csv_path :: "downloader \<Rightarrow> path" where
  "csv_path self = output_dir self @ [''fdic'', ''fdic_failures_api.csv'']"



text \<open>
  The exception that handling a decoded document raises in the API step, if any: from
  \<open>"data" in data\<close>, from \<open>data["data"]\<close>, from \<open>records[0].keys()\<close> or from the CSV
  writer. \<open>None\<close> means the step returns.
\<close>

definition records_error :: "json \<Rightarrow> exn option" where
  "records_error records =
     (if \<not> truthy records then None
      else case getitem0 records of
             Inl x \<Rightarrow> Some x
           | Inr first \<Rightarrow>
               (case py_keys first of
                  Inl x \<Rightarrow> Some x
                | Inr headers \<Rightarrow> snd (writerows headers (iter_rows records))))"

definition doc_error :: "json \<Rightarrow> exn option" where
  "doc_error d =
     (if \<not> truthy d then None
      else case py_in ''data'' d of
             Inl x \<Rightarrow> Some x
           | Inr False \<Rightarrow> None
           | Inr True \<Rightarrow>
               (case getitem d ''data'' of Inl x \<Rightarrow> Some x | Inr records \<Rightarrow> records_error records))"

subsection \<open>The NIC part of the catalog\<close>

definition extract_dir_of :: "downloader \<Rightarrow> source \<Rightarrow> path" where
  "extract_dir_of self src = output_dir self @ [''nic'', stem (filename src)]"

definition nic_downloads :: "source list" where
  "nic_downloads = map snd (filter (\<lambda>(k, src). startswith k ''nic_'') DATA_SOURCES)"


text \<open>
  What extraction answers for the bytes a source's download delivered (\<open>None\<close> when the
  download failed), and the members an answer says were written.
\<close>

definition archive_answer :: "env \<Rightarrow> source \<Rightarrow> zip_result option" where
  "archive_answer e src =
     (case http_get e (url src) of
        RequestFailed msg \<Rightarrow> None
      | Response status_code content_length chunks broken \<Rightarrow>
          if raise_for_status status_code \<or> broken \<noteq> None then None
          else Some (zipfile e (Bytes (concat chunks))))"

definition written_members :: "zip_result \<Rightarrow> (string \<times> string) list" where
  "written_members z =
     (case z of
        BadOnOpen msg \<Rightarrow> []
      | BadOnExtract written msg \<Rightarrow> written
      | ZipRaises written x \<Rightarrow> written
      | ZipOk members \<Rightarrow> members)"

text \<open>
  The exception with which the body of the NIC loop ends for a source, if any: the one that
  is not a \<open>BadZipFile\<close>, for a source of format \<open>zip\<close> that was downloaded. The loop ends
  at the first source that raises: \<open>first_raise\<close> is its exception, \<open>requested\<close> are the
  sources up to and including it.
\<close>

definition nic_raise :: "env \<Rightarrow> source \<Rightarrow> exn option" where
  "nic_raise e src =
     (if format src = ''zip''
      then case archive_answer e src of
             Some (ZipRaises written x) \<Rightarrow> Some x
           | _ \<Rightarrow> None
      else None)"

fun first_raise :: "env \<Rightarrow> source list \<Rightarrow> exn option" where
  "first_raise e [] = None"
| "first_raise e (src # srcs) =
     (case nic_raise e src of Some x \<Rightarrow> Some x | None \<Rightarrow> first_raise e srcs)"

fun requested :: "env \<Rightarrow> source list \<Rightarrow> source list" where
  "requested e [] = []"
| "requested e (src # srcs) =
     src # (case nic_raise e src of Some x \<Rightarrow> [] | None \<Rightarrow> requested e srcs)"

text \<open>
  A listed member is present below a directory: a directory entry as a directory, any other
  member as a file, at the path extraction gives it.
\<close>

definition member_present :: "path \<Rightarrow> string \<Rightarrow> world \<Rightarrow> bool" where
  "member_present d nm w =
     (if is_dir nm then d @ arcname nm \<in> dirs w else files w (d @ arcname nm) \<noteq> None)"

text \<open>
  The exception with which the full sequence ends, if any: the one of the API step, else
  the one of the NIC step (the other three steps never raise).
\<close>

definition sequence_error :: "env \<Rightarrow> exn option" where
  "sequence_error e =
     (case api_document e of
        None \<Rightarrow> first_raise e nic_downloads
      | Some d \<Rightarrow>
          (case doc_error d of Some x \<Rightarrow> Some x | None \<Rightarrow> first_raise e nic_downloads))"

text \<open>The world in which the full sequence has finished its NIC step.\<close>

definition after_nic :: "env \<Rightarrow> downloader \<Rightarrow> world \<Rightarrow> world" where
  "after_nic e self w =
     snd (download_nic_data e self
            (snd (download_fdic_failures_api e self
                    (snd (download_fdic_failed_banks e self w)))))"

subsection \<open>What a run leaves behind, output aside\<close>

text \<open>
  Two runs are compared on the directories, the files with their contents, the requests
  sent and the value returned; \<open>mute\<close> erases the output, \<open>quiet\<close> turns verbosity off.
\<close>

definition observable :: "world \<Rightarrow> path set \<times> (path \<rightharpoonup> content) \<times> string list" where
  "observable w = (dirs w, files w, gets w)"

definition observed :: "'a \<times> world \<Rightarrow> 'a \<times> path set \<times> (path \<rightharpoonup> content) \<times> string list" where
  "observed r = (fst r, observable (snd r))"

definition mute :: "world \<Rightarrow> world" where
  "mute w = w\<lparr>out := []\<rparr>"

definition muted :: "'a \<times> world \<Rightarrow> 'a \<times> world" where
  "muted r = (fst r, mute (snd r))"

definition quiet :: "downloader \<Rightarrow> downloader" where
  "quiet self = self\<lparr>verbose := False\<rparr>"

section \<open>Concrete inputs\<close>

text \<open>An empty filesystem and the downloader of the default output directory.\<close>

definition empty_world :: world where
  "empty_world = \<lparr>dirs = {}, files = Map.empty, gets = [], out = []\<rparr>"

definition default_downloader :: downloader where
  "default_downloader = \<lparr>output_dir = [''data'', ''downloads''], verbose = True\<rparr>"

text \<open>
  Environments: the network down; every request answered (a three-byte body in three
  chunks, one API record, one member per archive); every download answered 304; every
  download breaking off after two bytes; the API answering with the number 5; every archive
  damaged so that the reader raises \<open>zlib.error\<close>; every archive holding a nested member
  and one that tries to climb out; an API answer without records.
\<close>

definition offline :: env where
  "offline = \<lparr>http_get = (\<lambda>u. RequestFailed ''timed out''),
              api_get = (\<lambda>u ps. ApiFailed ''timed out''),
              zipfile = (\<lambda>c. BadOnOpen ''File is not a zip file''),
              now = ''2025-11-01T00:00:00''\<rparr>"

definition online :: env where
  "online = \<lparr>http_get = (\<lambda>u. Response 200 (Some 3) [''ab'', [], ''c''] None),
             api_get = (\<lambda>u ps. ApiResponse 200
                          (JObj [(''data'', JArr [JObj [(''NAME'', JStr ''First Bank'')]])])),
             zipfile = (\<lambda>c. ZipOk [(''ATTRIBUTES.csv'', ''x'')]),
             now = ''2025-11-01T00:00:00''\<rparr>"

definition not_modified :: env where
  "not_modified = online\<lparr>http_get := (\<lambda>u. Response 304 None [] None)\<rparr>"

definition broken_stream :: env where
  "broken_stream =
     online\<lparr>http_get := (\<lambda>u. Response 200 (Some 10) [''ab''] (Some ''connection reset''))\<rparr>"



definition nested_archives :: env where
  "nested_archives =
     online\<lparr>zipfile := (\<lambda>c. ZipOk [(''sub/inner.csv'', ''x''), (''../evil.txt'', ''y'')])\<rparr>"


text \<open>A filesystem holding one file that is not a zip archive.\<close>

definition junk_archive :: world where
  "junk_archive = empty_world\<lparr>files := [[''nic'', ''a.zip''] \<mapsto> Bytes ''junk'']\<rparr>"

text \<open>The command lines \<open>--list\<close> and \<open>--all\<close>.\<close>

definition list_only :: args where
  "list_only = \<lparr>arg_all = False, arg_fdic = False, arg_nic = False, arg_chicago_fed = False,
                arg_cdr = False, arg_list = True, arg_output_dir = [''data'', ''downloads''],
                arg_quiet = False\<rparr>"

definition all_flag :: args where
  "all_flag = \<lparr>arg_all = True, arg_fdic = False, arg_nic = False, arg_chicago_fed = False,
               arg_cdr = False, arg_list = False, arg_output_dir = [''data'', ''downloads''],
               arg_quiet = False\<rparr>"

text \<open>The catalog entry \<open>nic_attributes_csv\<close>.\<close>

definition attributes_active :: source where
  "attributes_active =
     \<lparr>name = ''NIC Attributes Table (CSV)'',
      description = ''Institution attributes data - entity characteristics'',
      url = ''https://www.ffiec.gov/npw/StaticData/DataDownload/CSV/CSV_ATTRIBUTES_ACTIVE.zip'',
      format = ''zip'', direct_download = True,
      filename = ''NIC_Attributes_Active.zip''\<rparr>"

section \<open>Frame and result lemmas\<close>

lemma log_frame [simp]:
  "dirs (log self m w) = dirs w" "files (log self m w) = files w" "gets (log self m w) = gets w"
  by (simp_all add: log_def)

lemma banner_frame [simp]:
  "dirs (banner self t w) = dirs w" "files (banner self t w) = files w"
  "gets (banner self t w) = gets w"
  by (simp_all add: banner_def)

lemma write_file_frame [simp]:
  "dirs (write_file p c w) = dirs w" "files (write_file p c w) = (files w)(p \<mapsto> c)"
  "gets (write_file p c w) = gets w" "out (write_file p c w) = out w"
  by (simp_all add: write_file_def)

lemma mkdir_frame [simp]:
  "dirs (mkdir p w) = insert p (dirs w)" "files (mkdir p w) = files w"
  "gets (mkdir p w) = gets w" "out (mkdir p w) = out w"
  by (simp_all add: mkdir_def)

lemma append_bytes_frame [simp]:
  "dirs (append_bytes p c w) = dirs w" "gets (append_bytes p c w) = gets w"
  "out (append_bytes p c w) = out w"
  by (simp_all add: append_bytes_def)

lemma write_chunks_frame [simp]:
  "dirs (write_chunks self p t chunks n w) = dirs w"
  "gets (write_chunks self p t chunks n w) = gets w"
  by (induction self p t chunks n w rule: write_chunks.induct) (simp_all add: Let_def)

lemma append_bytes_out:
  "append_bytes p c (w\<lparr>out := o'\<rparr>) = (append_bytes p c w)\<lparr>out := o'\<rparr>"
  by (simp add: append_bytes_def write_file_def)

lemma fold_append_bytes_out:
  "fold (append_bytes p) cs (w\<lparr>out := o'\<rparr>) = (fold (append_bytes p) cs w)\<lparr>out := o'\<rparr>"
  by (induction cs arbitrary: w) (simp_all add: append_bytes_out)

lemma write_chunks_fold:
  "\<exists>o'. write_chunks self p t chunks n w =
         (fold (append_bytes p) (filter (\<lambda>c. c \<noteq> []) chunks) w)\<lparr>out := o'\<rparr>"
proof (induction self p t chunks n w rule: write_chunks.induct)
  case (1 self p total_size downloaded w)
  have "w = w\<lparr>out := out w\<rparr>" by simp
  then show ?case by (metis fold_simps(1) filter.simps(1) write_chunks.simps(1))
next
  case (2 self p total_size chunk rest downloaded w)
  show ?case
  proof (cases "chunk = []")
    case True
    with 2 show ?thesis by simp
  next
    case False
    with 2 show ?thesis
      by (auto simp add: Let_def fold_append_bytes_out)
  qed
qed

lemma write_chunks_files_fold:
  "files (write_chunks self p t chunks n w) =
   files (fold (append_bytes p) (filter (\<lambda>c. c \<noteq> []) chunks) w)"
proof -
  obtain o' where "write_chunks self p t chunks n w =
      (fold (append_bytes p) (filter (\<lambda>c. c \<noteq> []) chunks) w)\<lparr>out := o'\<rparr>"
    using write_chunks_fold by blast
  then show ?thesis by simp
qed

lemma fold_append_bytes_files:
  "files w p = Some (Bytes b) \<Longrightarrow>
   files (fold (append_bytes p) cs w) = (files w)(p \<mapsto> Bytes (b @ concat cs))"
proof (induction cs arbitrary: w b)
  case Nil
  then show ?case by (simp add: fun_upd_idem)
next
  case (Cons c cs)
  have "files (append_bytes p c w) p = Some (Bytes (b @ c))"
    using Cons.prems by (simp add: append_bytes_def)
  from Cons.IH [OF this] show ?case
    using Cons.prems by (auto simp add: append_bytes_def fun_eq_iff)
qed

lemma concat_nonempty: "concat (filter (\<lambda>c. c \<noteq> []) chunks) = concat chunks"
  by (induction chunks) simp_all

lemma write_chunks_files:
  "files w p = Some (Bytes b) \<Longrightarrow>
   files (write_chunks self p t chunks n w) = (files w)(p \<mapsto> Bytes (b @ concat chunks))"
  by (simp add: write_chunks_files_fold fold_append_bytes_files concat_nonempty)

lemma download_file_result:
  "fst (download_file e self u p d w) = (\<not> transport_failure (http_get e u))"
  by (simp add: download_file_def transport_failure_def Let_def
      split: http_result.splits option.splits)

lemma download_file_gets [simp]: "gets (snd (download_file e self u p d w)) = gets w @ [u]"
  by (simp add: download_file_def Let_def split: http_result.splits option.splits)

lemma download_file_dirs [simp]: "dirs (snd (download_file e self u p d w)) = dirs w"
  by (simp add: download_file_def Let_def split: http_result.splits option.splits)

lemma download_file_files:
  "files (snd (download_file e self u p d w)) =
     (case http_get e u of
        RequestFailed msg \<Rightarrow> files w
      | Response status_code content_length chunks broken \<Rightarrow>
          if raise_for_status status_code then files w
          else (files w)(p \<mapsto> Bytes (concat chunks)))"
  by (simp add: download_file_def Let_def write_chunks_files
      split: http_result.splits option.splits)

subsection \<open>Verbosity: muting the output commutes with every method\<close>

lemma observable_mute: "observable w = observable w' \<longleftrightarrow> mute w = mute w'"
  by (cases w; cases w') (simp add: observable_def mute_def)

lemma quiet_simps [simp]: "verbose (quiet self) = False" "output_dir (quiet self) = output_dir self"
  "quiet (quiet self) = quiet self"
  by (simp_all add: quiet_def)

lemma mute_fields [simp]:
  "dirs (mute w) = dirs w" "files (mute w) = files w" "gets (mute w) = gets w" "out (mute w) = []"
  "mute (mute w) = mute w"
  by (simp_all add: mute_def)

lemma muted_pair [simp]: "muted (a, w) = (a, mute w)"
  by (simp add: muted_def)

lemma mute_log [simp]: "mute (log self m w) = mute w"
  by (simp add: mute_def log_def)

lemma log_quiet [simp]: "log (quiet self) m w = w"
  by (simp add: log_def)

lemma mute_banner [simp]: "mute (banner self t w) = mute w"
  by (simp add: banner_def)

lemma banner_quiet [simp]: "banner (quiet self) t w = w"
  by (simp add: banner_def)

lemma mute_fold_log [simp]: "mute (fold (log self) ms w) = mute w"
  by (induction ms arbitrary: w) simp_all

lemma fold_log_quiet [simp]: "fold (log (quiet self)) ms w = w"
  by (induction ms arbitrary: w) simp_all

lemma mute_print [simp]: "mute (print s w) = mute w"
  by (simp add: mute_def print_def)

lemma mute_fold_print [simp]: "mute (fold print ms w) = mute w"
  by (induction ms arbitrary: w) simp_all

lemma mute_write_file [simp]: "mute (write_file p c w) = write_file p c (mute w)"
  by (simp add: mute_def write_file_def)

lemma mute_mkdir [simp]: "mute (mkdir p w) = mkdir p (mute w)"
  by (simp add: mute_def mkdir_def)

lemma mute_mkdir_parents [simp]: "mute (mkdir_parents p w) = mkdir_parents p (mute w)"
  by (simp add: mute_def mkdir_parents_def)

lemma mute_gets_update [simp]: "mute (w\<lparr>gets := g\<rparr>) = (mute w)\<lparr>gets := g\<rparr>"
  by (simp add: mute_def)

lemma mute_out_update [simp]: "mute (w\<lparr>out := x\<rparr>) = mute w"
  by (simp add: mute_def)

lemma mute_append_bytes [simp]: "mute (append_bytes p c w) = append_bytes p c (mute w)"
  by (simp add: append_bytes_def)

lemma mute_write_chunks:
  "mute (write_chunks self p t chunks n w) = write_chunks (quiet self) p t chunks n (mute w)"
proof (induction self p t chunks n w rule: write_chunks.induct)
  case (1 self p total_size downloaded w)
  show ?case by simp
next
  case (2 self p total_size chunk rest downloaded w)
  show ?case
  proof (cases "chunk = []")
    case True
    with 2 show ?thesis by simp
  next
    case False
    with 2 show ?thesis by (simp add: Let_def)
  qed
qed

lemma download_file_mute:
  "muted (download_file e self u p d w) = download_file e (quiet self) u p d (mute w)"
  by (simp add: download_file_def Let_def mute_write_chunks
      split: http_result.splits option.splits)

lemma mute_makedirs [simp]: "mute (makedirs p w) = makedirs p (mute w)"
  by (simp add: mute_def makedirs_def)

lemma mute_extract_member [simp]:
  "mute (extract_member d m w) = extract_member d m (mute w)"
  by (simp add: extract_member_def Let_def)

lemma mute_extractall [simp]: "mute (extractall d ms w) = extractall d ms (mute w)"
  by (induction d ms w rule: extractall.induct) simp_all

lemma extract_zip_mute:
  "muted (extract_zip e self z d w) = extract_zip e (quiet self) z d (mute w)"
  by (simp add: extract_zip_def Let_def split: option.splits zip_result.splits)

lemma seq_mute:
  assumes "muted r = r'" and "\<And>v w. muted (f v w) = g v (mute w)"
  shows "muted (seq r f) = seq r' g"
  using assms by (cases r) (auto simp add: seq_def split: sum.splits)

lemma failed_banks_loop_mute:
  "muted (failed_banks_loop e self keys s w) =
   failed_banks_loop e (quiet self) keys s (mute w)"
proof (induction keys arbitrary: s w)
  case Nil
  show ?case by simp
next
  case (Cons key keys)
  show ?case
  proof (cases "lookup_source key")
    case (Inl x)
    then show ?thesis by simp
  next
    case (Inr src)
    obtain ok w1 where d: "download_file e self (url src)
        (output_dir self @ [''fdic'', filename src]) (name src) w = (ok, w1)"
      by (cases "download_file e self (url src)
        (output_dir self @ [''fdic'', filename src]) (name src) w")
    from download_file_mute [of e self "url src" "output_dir self @ [''fdic'', filename src]"
        "name src" w] d
    have d': "download_file e (quiet self) (url src)
        (output_dir self @ [''fdic'', filename src]) (name src) (mute w) = (ok, mute w1)"
      by simp
    show ?thesis using Inr d d' Cons.IH by simp
  qed
qed

lemma download_fdic_failed_banks_mute:
  "muted (download_fdic_failed_banks e self w) =
   download_fdic_failed_banks e (quiet self) (mute w)"
  unfolding download_fdic_failed_banks_def
  by (simp only: failed_banks_loop_mute mute_banner banner_quiet)

lemma nic_body_mute:
  "muted (nic_body e self src w) = nic_body e (quiet self) src (mute w)"
proof -
  obtain ok w1 where d: "download_file e self (url src)
      (output_dir self @ [''nic'', filename src]) (name src) w = (ok, w1)"
    by (cases "download_file e self (url src)
      (output_dir self @ [''nic'', filename src]) (name src) w")
  from download_file_mute [of e self "url src" "output_dir self @ [''nic'', filename src]"
      "name src" w] d
  have d': "download_file e (quiet self) (url src)
      (output_dir self @ [''nic'', filename src]) (name src) (mute w) = (ok, mute w1)"
    by simp
  have z: "muted
        (seq (extract_zip e self (output_dir self @ [''nic'', filename src])
               (output_dir self @ [''nic'', stem (filename src)])
               (mkdir (output_dir self @ [''nic'', stem (filename src)]) w1))
             (\<lambda>_ w3. (Inr True, w3))) =
        seq (extract_zip e (quiet self) (output_dir self @ [''nic'', filename src])
               (output_dir self @ [''nic'', stem (filename src)])
               (mkdir (output_dir self @ [''nic'', stem (filename src)]) (mute w1)))
             (\<lambda>_ w3. (Inr True, w3))"
    by (rule seq_mute) (simp_all add: extract_zip_mute)
  show ?thesis using d d' z by (simp add: nic_body_def Let_def)
qed

lemma nic_loop_mute:
  "muted (nic_loop e self keys s w) = nic_loop e (quiet self) keys s (mute w)"
proof (induction keys arbitrary: s w)
  case Nil
  show ?case by simp
next
  case (Cons key keys)
  show ?case
  proof (cases "lookup_source key")
    case (Inl x)
    then show ?thesis by simp
  next
    case (Inr src)
    have "muted (seq (nic_body e self src w)
                  (\<lambda>ok w1. nic_loop e self keys (if ok then s else False) w1)) =
          seq (nic_body e (quiet self) src (mute w))
                  (\<lambda>ok w1. nic_loop e (quiet self) keys (if ok then s else False) w1)"
      by (rule seq_mute) (simp_all add: nic_body_mute Cons.IH)
    with Inr show ?thesis by simp
  qed
qed

lemma download_nic_data_mute:
  "muted (download_nic_data e self w) = download_nic_data e (quiet self) (mute w)"
  unfolding download_nic_data_def
  by (simp only: nic_loop_mute mute_banner banner_quiet)

lemma download_fdic_api_data_mute:
  "muted (download_fdic_api_data e self ep ps lim w) =
   download_fdic_api_data e (quiet self) ep ps lim (mute w)"
  by (simp add: download_fdic_api_data_def Let_def split: api_result.splits)

lemma json_to_csv_mute:
  "muted (json_to_csv self r p w) = json_to_csv (quiet self) r p (mute w)"
  by (simp add: json_to_csv_def Let_def split_beta split: sum.splits option.splits)

lemma download_fdic_failures_api_mute:
  "muted (download_fdic_failures_api e self w) =
   download_fdic_failures_api e (quiet self) (mute w)"
proof -
  obtain data w2 where a: "download_fdic_api_data e self ''/failures'' None 10000
      (log self ''Downloading FDIC Failures via API...'' w) = (data, w2)"
    by (cases "download_fdic_api_data e self ''/failures'' None 10000
      (log self ''Downloading FDIC Failures via API...'' w)")
  from download_fdic_api_data_mute [of e self "''/failures''" None 10000
      "log self ''Downloading FDIC Failures via API...'' w"] a
  have a': "download_fdic_api_data e (quiet self) ''/failures'' None 10000 (mute w) = (data, mute w2)"
    by simp
  show ?thesis
    using a a'
    by (auto simp add: download_fdic_failures_api_def Let_def json_to_csv_mute
        intro!: seq_mute split: option.splits sum.splits bool.splits)
qed

lemma download_chicago_fed_data_mute:
  "muted (download_chicago_fed_data self w) = download_chicago_fed_data (quiet self) (mute w)"
  by (simp add: download_chicago_fed_data_def Let_def)

lemma download_cdr_info_mute:
  "muted (download_cdr_info self w) = download_cdr_info (quiet self) (mute w)"
  by (simp add: download_cdr_info_def Let_def)

lemma save_manifest_mute:
  "mute (save_manifest e self r w) = save_manifest e (quiet self) r (mute w)"
  by (simp add: save_manifest_def Let_def manifest_path_def)

lemma returns_mute:
  "muted r = r' \<Longrightarrow> muted (returns r) = returns r'"
  by (cases r) (auto simp add: returns_def muted_def)

lemma download_all_mute:
  "muted (download_all e self w) = download_all e (quiet self) (mute w)"
  unfolding download_all_def
  by (intro seq_mute returns_mute download_fdic_failed_banks_mute download_fdic_failures_api_mute
      download_nic_data_mute download_chicago_fed_data_mute download_cdr_info_mute)
     (simp add: Let_def save_manifest_mute)

lemma observed_muted: "observed r = observed r' \<longleftrightarrow> muted r = muted r'"
  by (simp add: observed_def muted_def observable_mute)

lemma quiet_eq: "output_dir s = output_dir s' \<Longrightarrow> quiet s = quiet s'"
  by (cases s; cases s') (simp add: quiet_def)

lemma mute_list_sources [simp]: "mute (list_sources d w) = mute w"
proof -
  have ps: "\<And>src v. mute (print_source src v) = mute v"
    by (simp add: print_source_def)
  have fps: "\<And>srcs v. mute (fold print_source srcs v) = mute v"
  proof -
    fix srcs :: "source list" and v
    show "mute (fold print_source srcs v) = mute v"
      by (induction srcs arbitrary: v) (simp_all add: ps)
  qed
  show ?thesis
    unfolding list_sources_def Let_def
    by (simp only: mute_fold_print fps mute_print)
qed

lemma mute_print_summary [simp]: "mute (print_summary r w) = mute w"
  unfolding print_summary_def by (simp only: mute_fold_print)

lemma seq_indep:
  assumes "muted r = muted r'"
    and "\<And>v w w'. mute w = mute w' \<Longrightarrow> muted (f v w) = muted (f' v w')"
  shows "muted (seq r f) = muted (seq r' f')"
  using assms by (cases r; cases r') (auto simp add: seq_def split: sum.splits)

lemma run_if_indep:
  assumes "mute w = mute w'"
    and "\<And>w w'. mute w = mute w' \<Longrightarrow> muted (f w) = muted (f' w')"
  shows "muted (run_if b f w) = muted (run_if b f' w')"
  using assms by (simp add: run_if_def)

lemma download_all_indep:
  "output_dir s = output_dir s' \<Longrightarrow> mute w = mute w' \<Longrightarrow>
   muted (download_all e s w) = muted (download_all e s' w')"
  by (simp add: download_all_mute quiet_eq [of s s'])

lemma download_fdic_failed_banks_indep:
  "output_dir s = output_dir s' \<Longrightarrow> mute w = mute w' \<Longrightarrow>
   muted (download_fdic_failed_banks e s w) = muted (download_fdic_failed_banks e s' w')"
  by (simp add: download_fdic_failed_banks_mute quiet_eq [of s s'])

lemma download_fdic_failures_api_indep:
  "output_dir s = output_dir s' \<Longrightarrow> mute w = mute w' \<Longrightarrow>
   muted (download_fdic_failures_api e s w) = muted (download_fdic_failures_api e s' w')"
  by (simp add: download_fdic_failures_api_mute quiet_eq [of s s'])

lemma download_nic_data_indep:
  "output_dir s = output_dir s' \<Longrightarrow> mute w = mute w' \<Longrightarrow>
   muted (download_nic_data e s w) = muted (download_nic_data e s' w')"
  by (simp add: download_nic_data_mute quiet_eq [of s s'])

lemma download_chicago_fed_data_indep:
  "output_dir s = output_dir s' \<Longrightarrow> mute w = mute w' \<Longrightarrow>
   mute (snd (download_chicago_fed_data s w)) = mute (snd (download_chicago_fed_data s' w'))"
  using download_chicago_fed_data_mute [of s w] download_chicago_fed_data_mute [of s' w']
  by (simp add: muted_def quiet_eq [of s s']) (metis snd_conv)

lemma download_cdr_info_indep:
  "output_dir s = output_dir s' \<Longrightarrow> mute w = mute w' \<Longrightarrow>
   mute (snd (download_cdr_info s w)) = mute (snd (download_cdr_info s' w'))"
  using download_cdr_info_mute [of s w] download_cdr_info_mute [of s' w']
  by (simp add: muted_def quiet_eq [of s s']) (metis snd_conv)

lemma init_indep:
  "fst (init p v w) = \<lparr>output_dir = p, verbose = v\<rparr>"
  "mute (snd (init p v w)) = mute (snd (init p v' w))"
  by (simp_all add: init_def Let_def)

lemma main_flags_branch:
  assumes i: "init (arg_output_dir a) (\<not> q) w = (d, w0)" and nl: "\<not> arg_list a" and na: "\<not> arg_all a"
  shows "main e (a\<lparr>arg_quiet := q\<rparr>) w =
            (seq (run_if (arg_fdic a) (\<lambda>w1.
                  seq (download_fdic_failed_banks e d w1) (\<lambda>_ w2.
                  seq (download_fdic_failures_api e d w2) (\<lambda>_ w3. (Inr (), w3)))) w0)
             (\<lambda>_ w1.
           seq (run_if (arg_nic a) (\<lambda>w2.
                  seq (download_nic_data e d w2) (\<lambda>_ w3. (Inr (), w3))) w1)
             (\<lambda>_ w2.
           seq (run_if (arg_chicago_fed a) (\<lambda>w3.
                  (Inr (), snd (download_chicago_fed_data d w3))) w2)
             (\<lambda>_ w3.
           seq (run_if (arg_cdr a) (\<lambda>w4.
                  (Inr (), snd (download_cdr_info d w4))) w3)
             (\<lambda>_ w4.
               if \<not> (arg_all a \<or> arg_fdic a \<or> arg_nic a \<or> arg_chicago_fed a \<or> arg_cdr a)
               then (Inr (), print ''usage: ffiec_nic_downloader.py [-h] ...'' w4)
               else (Inr (), w4))))))"
  using nl na i unfolding main_def by simp

lemma main_list_branch:
  assumes i: "init (arg_output_dir a) (\<not> q) w = (d, w0)" and  i': "init (arg_output_dir a) (\<not> q') w = (d', w0')"
   and m0: "mute w0 = mute w0'" and "arg_list a"
  shows "muted (main e (a\<lparr>arg_quiet := q\<rparr>) w) = muted (main e (a\<lparr>arg_quiet := q'\<rparr>) w)"
  using assms by (simp add: main_def)

lemma flags_indep:
  assumes m0: "mute w0 = mute w0'"
    and A: "\<And>v v'. mute v = mute v' \<Longrightarrow> muted (A1 v) = muted (A2 v')"
    and B: "\<And>v v'. mute v = mute v' \<Longrightarrow> muted (B1 v) = muted (B2 v')"
    and C: "\<And>v v'. mute v = mute v' \<Longrightarrow> muted (C1 v) = muted (C2 v')"
    and D: "\<And>v v'. mute v = mute v' \<Longrightarrow> muted (D1 v) = muted (D2 v')"
    and E: "\<And>v v'. mute v = mute v' \<Longrightarrow> muted (E1 v) = muted (E2 v')"
  shows "muted (seq (run_if a A1 w0) (\<lambda>_ w1. seq (run_if b B1 w1) (\<lambda>_ w2.
           seq (run_if c C1 w2) (\<lambda>_ w3. seq (run_if d D1 w3) (\<lambda>_ w4. E1 w4))))) =
         muted (seq (run_if a A2 w0') (\<lambda>_ w1. seq (run_if b B2 w1) (\<lambda>_ w2.
           seq (run_if c C2 w2) (\<lambda>_ w3. seq (run_if d D2 w3) (\<lambda>_ w4. E2 w4)))))"
proof (rule seq_indep)
  show "muted (run_if a A1 w0) = muted (run_if a A2 w0')"
    by (rule run_if_indep [OF m0]) (rule A)
next
  fix v :: unit and w1 w1' assume m1: "mute w1 = mute w1'"
  show "muted (seq (run_if b B1 w1) (\<lambda>_ w2.
           seq (run_if c C1 w2) (\<lambda>_ w3. seq (run_if d D1 w3) (\<lambda>_ w4. E1 w4)))) =
        muted (seq (run_if b B2 w1') (\<lambda>_ w2.
           seq (run_if c C2 w2) (\<lambda>_ w3. seq (run_if d D2 w3) (\<lambda>_ w4. E2 w4))))"
  proof (rule seq_indep)
    show "muted (run_if b B1 w1) = muted (run_if b B2 w1')"
      by (rule run_if_indep [OF m1]) (rule B)
  next
    fix v :: unit and w2 w2' assume m2: "mute w2 = mute w2'"
    show "muted (seq (run_if c C1 w2) (\<lambda>_ w3. seq (run_if d D1 w3) (\<lambda>_ w4. E1 w4))) =
          muted (seq (run_if c C2 w2') (\<lambda>_ w3. seq (run_if d D2 w3) (\<lambda>_ w4. E2 w4)))"
    proof (rule seq_indep)
      show "muted (run_if c C1 w2) = muted (run_if c C2 w2')"
        by (rule run_if_indep [OF m2]) (rule C)
    next
      fix v :: unit and w3 w3' assume m3: "mute w3 = mute w3'"
      show "muted (seq (run_if d D1 w3) (\<lambda>_ w4. E1 w4)) =
            muted (seq (run_if d D2 w3') (\<lambda>_ w4. E2 w4))"
      proof (rule seq_indep)
        show "muted (run_if d D1 w3) = muted (run_if d D2 w3')"
          by (rule run_if_indep [OF m3]) (rule D)
      next
        fix v :: unit and w4 w4' assume "mute w4 = mute w4'"
        then show "muted (E1 w4) = muted (E2 w4')" by (rule E)
      qed
    qed
  qed
qed

lemma fdic_pair_indep:
  assumes od: "output_dir d = output_dir d'" and m: "mute v = mute v'"
  shows "muted (seq (download_fdic_failed_banks e d v) (\<lambda>_ w2.
                 seq (download_fdic_failures_api e d w2) (\<lambda>_ w3. (Inr (), w3)))) =
         muted (seq (download_fdic_failed_banks e d' v') (\<lambda>_ w2.
                 seq (download_fdic_failures_api e d' w2) (\<lambda>_ w3. (Inr (), w3))))"
proof (rule seq_indep)
  show "muted (download_fdic_failed_banks e d v) = muted (download_fdic_failed_banks e d' v')"
    by (rule download_fdic_failed_banks_indep [OF od m])
next
  fix x :: bool and w2 w2' assume m2: "mute w2 = mute w2'"
  show "muted (seq (download_fdic_failures_api e d w2) (\<lambda>_ w3. (Inr (), w3))) =
        muted (seq (download_fdic_failures_api e d' w2') (\<lambda>_ w3. (Inr (), w3)))"
  proof (rule seq_indep)
    show "muted (download_fdic_failures_api e d w2) = muted (download_fdic_failures_api e d' w2')"
      by (rule download_fdic_failures_api_indep [OF od m2])
  next
    fix y :: bool and w3 w3' assume "mute w3 = mute w3'"
    then show "muted (Inr (), w3) = muted (Inr (), w3')" by simp
  qed
qed

lemma nic_flag_indep:
  assumes od: "output_dir d = output_dir d'" and m: "mute v = mute v'"
  shows "muted (seq (download_nic_data e d v) (\<lambda>_ w3. (Inr (), w3))) =
         muted (seq (download_nic_data e d' v') (\<lambda>_ w3. (Inr (), w3)))"
proof (rule seq_indep)
  show "muted (download_nic_data e d v) = muted (download_nic_data e d' v')"
    by (rule download_nic_data_indep [OF od m])
next
  fix y :: bool and w3 w3' assume "mute w3 = mute w3'"
  then show "muted (Inr (), w3) = muted (Inr (), w3')" by simp
qed

lemma main_indep:
  "muted (main e (a\<lparr>arg_quiet := q\<rparr>) w) = muted (main e (a\<lparr>arg_quiet := q'\<rparr>) w)"
proof -
  obtain d w0 where i: "init (arg_output_dir a) (\<not> q) w = (d, w0)"
    by (cases "init (arg_output_dir a) (\<not> q) w")
  obtain d' w0' where i': "init (arg_output_dir a) (\<not> q') w = (d', w0')"
    by (cases "init (arg_output_dir a) (\<not> q') w")
  have od: "output_dir d = output_dir d'"
    using init_indep(1) [of "arg_output_dir a" "\<not> q" w]
      init_indep(1) [of "arg_output_dir a" "\<not> q'" w] i i' by simp
  have m0: "mute w0 = mute w0'"
    using init_indep(2) [of "arg_output_dir a" "\<not> q" w "\<not> q'"] i i' by simp
  show ?thesis
  proof (cases "arg_list a")
    case True
    from i i' m0 True show ?thesis by (rule main_list_branch)
  next
    case nl: False
    show ?thesis
    proof (cases "arg_all a")
      case True
      have "muted (seq (download_all e d w0) (\<lambda>results w1. (Inr (), print_summary results w1))) =
            muted (seq (download_all e d' w0') (\<lambda>results w1. (Inr (), print_summary results w1)))"
      proof (rule seq_indep)
        show "muted (download_all e d w0) = muted (download_all e d' w0')"
          by (rule download_all_indep [OF od m0])
      next
        fix r :: "(string \<times> bool) list" and w1 w1' assume "mute w1 = mute w1'"
        then show "muted (Inr (), print_summary r w1) = muted (Inr (), print_summary r w1')"
          by simp
      qed
      moreover have "main e (a\<lparr>arg_quiet := q\<rparr>) w =
          seq (download_all e d w0) (\<lambda>results w1. (Inr (), print_summary results w1))"
        using nl True i by (simp add: main_def)
      moreover have "main e (a\<lparr>arg_quiet := q'\<rparr>) w =
          seq (download_all e d' w0') (\<lambda>results w1. (Inr (), print_summary results w1))"
        using nl True i' by (simp add: main_def)
      ultimately show ?thesis by simp
    next
      case na: False
      note u = main_flags_branch [OF i nl na, of e] main_flags_branch [OF i' nl na, of e]
      show ?thesis
        unfolding u
      proof (rule flags_indep [OF m0])
        fix v v' :: world assume m: "mute v = mute v'"
        show "muted (seq (download_fdic_failed_banks e d v) (\<lambda>_ w2.
                 seq (download_fdic_failures_api e d w2) (\<lambda>_ w3. (Inr (), w3)))) =
              muted (seq (download_fdic_failed_banks e d' v') (\<lambda>_ w2.
                 seq (download_fdic_failures_api e d' w2) (\<lambda>_ w3. (Inr (), w3))))"
          by (rule fdic_pair_indep [OF od m])
        show "muted (seq (download_nic_data e d v) (\<lambda>_ w3. (Inr (), w3))) =
              muted (seq (download_nic_data e d' v') (\<lambda>_ w3. (Inr (), w3)))"
          by (rule nic_flag_indep [OF od m])
        show "muted (Inr (), snd (download_chicago_fed_data d v)) =
              muted (Inr (), snd (download_chicago_fed_data d' v'))"
          by (simp add: download_chicago_fed_data_indep [OF od m])
        show "muted (Inr (), snd (download_cdr_info d v)) =
              muted (Inr (), snd (download_cdr_info d' v'))"
          by (simp add: download_cdr_info_indep [OF od m])
        show "muted (if \<not> (arg_all a \<or> arg_fdic a \<or> arg_nic a \<or> arg_chicago_fed a \<or> arg_cdr a)
                 then (Inr (), print ''usage: ffiec_nic_downloader.py [-h] ...'' v)
                 else (Inr (), v)) =
          muted (if \<not> (arg_all a \<or> arg_fdic a \<or> arg_nic a \<or> arg_chicago_fed a \<or> arg_cdr a)
                 then (Inr (), print ''usage: ffiec_nic_downloader.py [-h] ...'' v')
                 else (Inr (), v'))"
          using m by simp
      qed
    qed
  qed
qed

lemma init_world:
  "files (snd (init p v w)) = files w" "gets (snd (init p v w)) = gets w"
  "dirs (snd (init p v w)) = dirs w \<union> set (ancestors_and_self p) \<union>
     {p @ [''fdic''], p @ [''nic''], p @ [''chicago_fed''], p @ [''metadata'']}"
  by (auto simp add: init_def Let_def mkdir_parents_def)

subsection \<open>The API step\<close>

lemma str_nat_10000: "str_nat 10000 = ''10000''"
  by (simp add: str_nat.simps digit_char_def)

lemma download_fdic_api_data_failures:
  "fst (download_fdic_api_data e self ''/failures'' None 10000 w) = api_document e"
  "dirs (snd (download_fdic_api_data e self ''/failures'' None 10000 w)) = dirs w"
  "files (snd (download_fdic_api_data e self ''/failures'' None 10000 w)) = files w"
  "gets (snd (download_fdic_api_data e self ''/failures'' None 10000 w)) = gets w @ [failures_url]"
  by (simp_all add: download_fdic_api_data_def api_document_def failures_url_def
      failures_params_def str_nat_10000 Let_def split: api_result.splits)



lemma api_step_unfold:
  "download_fdic_failures_api e self w =
     (let w2 = snd (download_fdic_api_data e self ''/failures'' None 10000
                     (log self ''Downloading FDIC Failures via API...'' w))
      in case api_document e of
           None \<Rightarrow> (Inr False, w2)
         | Some d \<Rightarrow>
             if \<not> truthy d then (Inr False, w2)
             else
               let w4 = log self (''  Saved API data to: '' @ str_path (json_path self))
                          (write_file (json_path self) (JsonDump d) w2)
               in case py_in ''data'' d of
                    Inl x \<Rightarrow> (Inl x, w4)
                  | Inr False \<Rightarrow> (Inr True, w4)
                  | Inr True \<Rightarrow>
                      (case getitem d ''data'' of
                         Inl x \<Rightarrow> (Inl x, w4)
                       | Inr records \<Rightarrow>
                           seq (json_to_csv self records (csv_path self) w4)
                               (\<lambda>_ w5. (Inr True, w5))))"
  using download_fdic_api_data_failures(1)
          [of e self "log self ''Downloading FDIC Failures via API...'' w"]
  by (cases "api_document e")
     (simp_all add: download_fdic_failures_api_def Let_def split_beta json_path_def csv_path_def
        cong: sum.case_cong bool.case_cong)

lemma json_csv_distinct [simp]: "json_path self \<noteq> csv_path self" "csv_path self \<noteq> json_path self"
  by (simp_all add: json_path_def csv_path_def)

lemma json_to_csv_files:
  "p' \<noteq> p \<Longrightarrow> files (snd (json_to_csv self records p w)) p' = files w p'"
  "dirs (snd (json_to_csv self records p w)) = dirs w"
  "gets (snd (json_to_csv self records p w)) = gets w"
  by (simp_all add: json_to_csv_def Let_def split_beta split: sum.splits option.splits)







subsection \<open>The NIC step\<close>

lemma nic_sources_eval:
  "nic_sources = [''nic_data_dictionary'', ''nic_attributes_csv'', ''nic_attributes_closed_csv'',
                  ''nic_attributes_branches_csv'', ''nic_relationships_csv'',
                  ''nic_transformations_csv'']"
  by (simp add: nic_sources_def DATA_SOURCES_def startswith_def)

lemma nic_sources_lookup: "map lookup_source nic_sources = map Inr nic_downloads"
  by (simp add: nic_sources_eval nic_downloads_def lookup_source_def DATA_SOURCES_def
      startswith_def)

lemma makedirs_frame [simp]:
  "files (makedirs p w) = files w" "gets (makedirs p w) = gets w" "out (makedirs p w) = out w"
  "dirs (makedirs p w) = dirs w \<union> set (ancestors_and_self p)"
  by (simp_all add: makedirs_def)

lemma extract_member_frame [simp]:
  "gets (extract_member d m w) = gets w" "out (extract_member d m w) = out w"
  by (simp_all add: extract_member_def Let_def)

lemma extract_member_mono:
  "dirs w \<subseteq> dirs (extract_member d m w)"
  "dom (files w) \<subseteq> dom (files (extract_member d m w))"
  by (auto simp add: extract_member_def Let_def)

lemma extract_member_outside:
  "take (length d) p \<noteq> d \<Longrightarrow> files (extract_member d m w) p = files w p"
  by (auto simp add: extract_member_def Let_def)

lemma extractall_frame [simp]:
  "gets (extractall d ms w) = gets w" "out (extractall d ms w) = out w"
  by (induction d ms w rule: extractall.induct) simp_all

lemma extractall_mono:
  "dirs w \<subseteq> dirs (extractall d ms w) \<and> dom (files w) \<subseteq> dom (files (extractall d ms w))"
proof (induction ms arbitrary: w)
  case Nil
  show ?case by simp
next
  case (Cons m ms)
  from Cons [of "extract_member d m w"] extract_member_mono [of w d m]
  show ?case by (simp only: extractall.simps) blast
qed

lemma extractall_outside:
  "take (length d) p \<noteq> d \<Longrightarrow> files (extractall d ms w) p = files w p"
  by (induction ms arbitrary: w) (simp_all add: extract_member_outside)

lemma member_present_mono:
  assumes "member_present d nm w" and "dirs w \<subseteq> dirs w'" and "dom (files w) \<subseteq> dom (files w')"
  shows "member_present d nm w'"
  using assms by (auto simp add: member_present_def split: if_splits)

lemma extract_member_present: "member_present d (fst m) (extract_member d m w)"
  by (simp add: member_present_def extract_member_def Let_def mkdir_def)

lemma extractall_present:
  "list_all (\<lambda>m. member_present d (fst m) (extractall d ms w)) ms"
proof (induction ms arbitrary: w)
  case Nil
  show ?case by simp
next
  case (Cons m ms)
  have "member_present d (fst m) (extractall d ms (extract_member d m w))"
    using extract_member_present [of d m w] extractall_mono [of "extract_member d m w" d ms]
    by (blast intro: member_present_mono)
  with Cons [of "extract_member d m w"] show ?case by simp
qed

lemma extract_zip_result:
  "files w z = Some c \<Longrightarrow>
   fst (extract_zip e self z d w) =
     (case zipfile e c of
        BadOnOpen msg \<Rightarrow> Inr []
      | BadOnExtract written msg \<Rightarrow> Inr []
      | ZipRaises written x \<Rightarrow> Inl x
      | ZipOk members \<Rightarrow> Inr (map (pjoin d) (map fst members)))"
  by (simp add: extract_zip_def Let_def split: zip_result.splits)

lemma extract_zip_world:
  "files w z = Some c \<Longrightarrow>
   dirs (snd (extract_zip e self z d w)) = dirs (extractall d (written_members (zipfile e c)) w) \<and>
   files (snd (extract_zip e self z d w)) = files (extractall d (written_members (zipfile e c)) w)"
  by (simp add: extract_zip_def Let_def written_members_def split: zip_result.splits)

lemma extract_zip_gets [simp]: "gets (snd (extract_zip e self z d w)) = gets w"
  by (simp add: extract_zip_def Let_def split: option.splits zip_result.splits)

lemma download_file_dom:
  "dom (files w) \<subseteq> dom (files (snd (download_file e self u p d w)))"
  by (auto simp add: download_file_files split: http_result.splits)

lemma download_file_outside:
  "p' \<noteq> p \<Longrightarrow> files (snd (download_file e self u p d w)) p' = files w p'"
  by (simp add: download_file_files split: http_result.splits)

lemma archive_answer_None:
  "(archive_answer e src = None) = transport_failure (http_get e (url src))"
  by (auto simp add: archive_answer_def transport_failure_def split: http_result.splits)

lemma download_file_archive:
  "archive_answer e src = Some z \<Longrightarrow>
   \<exists>c. files (snd (download_file e self (url src) p d w)) p = Some c \<and> zipfile e c = z"
  by (auto simp add: archive_answer_def download_file_files
      split: http_result.splits if_splits)

lemma seq_const:
  "snd (seq r (\<lambda>_ w. (Inr b, w))) = snd r"
  "fst (seq r (\<lambda>_ w. (Inr b, w))) = (case fst r of Inl x \<Rightarrow> Inl x | Inr v \<Rightarrow> Inr b)"
  by (cases r; cases "fst r"; simp add: seq_def)+

lemma nic_body_unfold:
  "nic_body e self src w =
     (let r = download_file e self (url src) (output_dir self @ [''nic'', filename src]) (name src) w
      in if fst r \<and> format src = ''zip''
         then seq (extract_zip e self (output_dir self @ [''nic'', filename src])
                     (extract_dir_of self src) (mkdir (extract_dir_of self src) (snd r)))
                (\<lambda>_ w3. (Inr True, w3))
         else (Inr (fst r), snd r))"
  by (simp add: nic_body_def Let_def split_beta extract_dir_of_def)

text \<open>The world of the loop's body, for a downloaded archive and for any other source.\<close>

lemma nic_body_archive:
  assumes "format src = ''zip''" and "archive_answer e src = Some z"
  shows "fst (nic_body e self src w) = (case z of ZipRaises written x \<Rightarrow> Inl x | _ \<Rightarrow> Inr True)"
    and "dirs (snd (nic_body e self src w)) =
           dirs (extractall (extract_dir_of self src) (written_members z)
                   (mkdir (extract_dir_of self src)
                      (snd (download_file e self (url src)
                              (output_dir self @ [''nic'', filename src]) (name src) w))))"
    and "files (snd (nic_body e self src w)) =
           files (extractall (extract_dir_of self src) (written_members z)
                   (mkdir (extract_dir_of self src)
                      (snd (download_file e self (url src)
                              (output_dir self @ [''nic'', filename src]) (name src) w))))"
proof -
  let ?p = "output_dir self @ [''nic'', filename src]"
  let ?r = "download_file e self (url src) ?p (name src) w"
  let ?w2 = "mkdir (extract_dir_of self src) (snd ?r)"
  from assms(2) have ok: "fst ?r"
    by (simp add: download_file_result archive_answer_None [symmetric])
  from download_file_archive [OF assms(2), of self ?p "name src" w]
  obtain c where c: "files ?w2 ?p = Some c" and z: "zipfile e c = z" by auto
  have u: "nic_body e self src w =
      seq (extract_zip e self ?p (extract_dir_of self src) ?w2) (\<lambda>_ w3. (Inr True, w3))"
    using ok assms(1) by (simp add: nic_body_unfold Let_def)
  show "fst (nic_body e self src w) = (case z of ZipRaises written x \<Rightarrow> Inl x | _ \<Rightarrow> Inr True)"
    unfolding u seq_const extract_zip_result [OF c] z
    by (simp split: zip_result.splits)
  show "dirs (snd (nic_body e self src w)) =
           dirs (extractall (extract_dir_of self src) (written_members z) ?w2)"
    unfolding u seq_const using extract_zip_world [OF c, of e self "extract_dir_of self src"] z
    by simp
  show "files (snd (nic_body e self src w)) =
           files (extractall (extract_dir_of self src) (written_members z) ?w2)"
    unfolding u seq_const using extract_zip_world [OF c, of e self "extract_dir_of self src"] z
    by simp
qed

lemma nic_body_plain:
  assumes "format src \<noteq> ''zip'' \<or> archive_answer e src = None"
  shows "nic_body e self src w =
           (Inr (\<not> transport_failure (http_get e (url src))),
            snd (download_file e self (url src) (output_dir self @ [''nic'', filename src])
                   (name src) w))"
  using assms
  by (auto simp add: nic_body_unfold Let_def download_file_result archive_answer_None)

lemma nic_body_result:
  "fst (nic_body e self src w) =
     (case nic_raise e src of
        Some x \<Rightarrow> Inl x
      | None \<Rightarrow> Inr (\<not> transport_failure (http_get e (url src))))"
proof (cases "format src = ''zip'' \<and> archive_answer e src \<noteq> None")
  case True
  then obtain z where z: "archive_answer e src = Some z" by auto
  with True have ok: "\<not> transport_failure (http_get e (url src))"
    by (simp add: archive_answer_None [symmetric])
  from True z ok show ?thesis
    unfolding nic_body_archive(1) [OF conjunct1 [OF True] z]
    by (simp add: nic_raise_def split: zip_result.splits)
next
  case False
  then have p: "format src \<noteq> ''zip'' \<or> archive_answer e src = None" by blast
  from False show ?thesis
    unfolding nic_body_plain [OF p] by (auto simp add: nic_raise_def)
qed

lemma nic_body_gets: "gets (snd (nic_body e self src w)) = gets w @ [url src]"
  by (simp add: nic_body_unfold Let_def seq_const)

lemma nic_body_mono:
  "dirs w \<subseteq> dirs (snd (nic_body e self src w)) \<and>
   dom (files w) \<subseteq> dom (files (snd (nic_body e self src w)))"
proof (cases "format src = ''zip'' \<and> archive_answer e src \<noteq> None")
  case True
  then obtain z where z: "archive_answer e src = Some z" by auto
  let ?r = "download_file e self (url src) (output_dir self @ [''nic'', filename src]) (name src) w"
  let ?w2 = "mkdir (extract_dir_of self src) (snd ?r)"
  have a: "dirs w \<subseteq> dirs ?w2 \<and> dom (files w) \<subseteq> dom (files ?w2)"
    using download_file_dom [of w e self "url src" "output_dir self @ [''nic'', filename src]"
        "name src"]
    by auto
  from a extractall_mono [of ?w2 "extract_dir_of self src" "written_members z"]
  show ?thesis
    unfolding nic_body_archive(2,3) [OF conjunct1 [OF True] z] by blast
next
  case False
  then have p: "format src \<noteq> ''zip'' \<or> archive_answer e src = None" by blast
  show ?thesis
    unfolding nic_body_plain [OF p] using download_file_dom by simp
qed

lemma nic_body_extracts:
  assumes "format src = ''zip''" and "archive_answer e src = Some z"
  shows "extract_dir_of self src \<in> dirs (snd (nic_body e self src w)) \<and>
         list_all (\<lambda>m. member_present (extract_dir_of self src) (fst m)
                         (snd (nic_body e self src w))) (written_members z)"
proof -
  let ?r = "download_file e self (url src) (output_dir self @ [''nic'', filename src]) (name src) w"
  let ?w2 = "mkdir (extract_dir_of self src) (snd ?r)"
  let ?w3 = "extractall (extract_dir_of self src) (written_members z) ?w2"
  have d: "extract_dir_of self src \<in> dirs ?w3"
    using extractall_mono [of ?w2 "extract_dir_of self src" "written_members z"]
    by (auto simp add: mkdir_def)
  have m: "list_all (\<lambda>m. member_present (extract_dir_of self src) (fst m) ?w3) (written_members z)"
    by (rule extractall_present)
  have eq: "\<And>nm. member_present (extract_dir_of self src) nm (snd (nic_body e self src w)) =
                 member_present (extract_dir_of self src) nm ?w3"
    unfolding member_present_def nic_body_archive(2,3) [OF assms] ..
  from d m show ?thesis
    unfolding eq unfolding nic_body_archive(2) [OF assms] by simp
qed

lemma nic_body_failed:
  "transport_failure (http_get e (url src)) \<Longrightarrow>
   dirs (snd (nic_body e self src w)) = dirs w"
  by (simp add: nic_body_plain archive_answer_None)

lemma nic_body_outside:
  assumes "take (Suc (length (output_dir self))) p \<noteq> output_dir self @ [''nic'']"
  shows "files (snd (nic_body e self src w)) p = files w p"
proof -
  let ?q = "output_dir self @ [''nic'', filename src]"
  let ?r = "download_file e self (url src) ?q (name src) w"
  from assms have ne: "p \<noteq> ?q" by auto
  have a: "files (snd ?r) p = files w p"
    using ne by (rule download_file_outside)
  have "take (length (extract_dir_of self src)) p \<noteq> extract_dir_of self src"
  proof
    assume "take (length (extract_dir_of self src)) p = extract_dir_of self src"
    then have "take (Suc (length (output_dir self))) (take (length (extract_dir_of self src)) p)
        = take (Suc (length (output_dir self))) (extract_dir_of self src)" by simp
    then have "take (Suc (length (output_dir self))) p = output_dir self @ [''nic'']"
      by (simp add: extract_dir_of_def min_def)
    with assms show False by simp
  qed
  note b = extractall_outside [OF this]
  show ?thesis
  proof (cases "format src = ''zip'' \<and> archive_answer e src \<noteq> None")
    case True
    then obtain z where z: "archive_answer e src = Some z" by auto
    show ?thesis
      unfolding nic_body_archive(3) [OF conjunct1 [OF True] z] b using a by simp
  next
    case False
    then have p: "format src \<noteq> ''zip'' \<or> archive_answer e src = None" by blast
    show ?thesis unfolding nic_body_plain [OF p] using a by simp
  qed
qed


lemma seq_Inr: "fst r = Inr v \<Longrightarrow> seq r f = f v (snd r)"
  by (cases r) (simp add: seq_def)

lemma seq_Inl: "fst r = Inl x \<Longrightarrow> seq r f = (Inl x, snd r)"
  by (cases r) (simp add: seq_def)

lemma nic_loop_step:
  assumes "lookup_source key = Inr src"
  shows "nic_loop e self (key # keys) s w =
     (case nic_raise e src of
        Some x \<Rightarrow> (Inl x, snd (nic_body e self src w))
      | None \<Rightarrow>
          nic_loop e self keys (if \<not> transport_failure (http_get e (url src)) then s else False)
            (snd (nic_body e self src w)))"
proof -
  have u: "nic_loop e self (key # keys) s w =
      seq (nic_body e self src w)
        (\<lambda>ok w1. nic_loop e self keys (if ok then s else False) w1)"
    using assms by simp
  show ?thesis
  proof (cases "nic_raise e src")
    case None
    with nic_body_result [of e self src w]
    have b: "fst (nic_body e self src w) = Inr (\<not> transport_failure (http_get e (url src)))"
      by simp
    have "seq (nic_body e self src w)
            (\<lambda>ok w1. nic_loop e self keys (if ok then s else False) w1) =
          nic_loop e self keys (if \<not> transport_failure (http_get e (url src)) then s else False)
            (snd (nic_body e self src w))"
      using seq_Inr [OF b, where f = "\<lambda>ok w1. nic_loop e self keys (if ok then s else False) w1"] .
    with u None show ?thesis by (simp only: option.case)
  next
    case (Some x)
    with nic_body_result [of e self src w]
    have "fst (nic_body e self src w) = Inl x" by simp
    from seq_Inl [OF this] u Some show ?thesis by (simp only: option.case)
  qed
qed

lemma nic_loop_result:
  assumes "map lookup_source keys = map Inr srcs"
  shows "fst (nic_loop e self keys s w) =
           (case first_raise e srcs of
              Some x \<Rightarrow> Inl x
            | None \<Rightarrow>
                Inr (s \<and> list_all (\<lambda>src. \<not> transport_failure (http_get e (url src))) srcs)) \<and>
         gets (snd (nic_loop e self keys s w)) = gets w @ map url (requested e srcs)"
  using assms
proof (induction keys arbitrary: srcs s w)
  case Nil
  then show ?case by simp
next
  case (Cons key keys)
  then obtain src rest where srcs: "srcs = src # rest" and src: "lookup_source key = Inr src"
    and rest: "map lookup_source keys = map Inr rest"
    by (cases srcs) auto
  show ?case
  proof (cases "nic_raise e src")
    case None
    from Cons.IH [OF rest, where s = "if \<not> transport_failure (http_get e (url src)) then s else False"
        and w = "snd (nic_body e self src w)"] None
    show ?thesis
      unfolding nic_loop_step [OF src] srcs
      by (auto simp add: nic_body_gets split: option.splits)
  next
    case (Some x)
    then show ?thesis
      unfolding nic_loop_step [OF src] srcs by (simp add: nic_body_gets)
  qed
qed

lemma nic_loop_mono:
  "dirs w \<subseteq> dirs (snd (nic_loop e self keys s w)) \<and>
   dom (files w) \<subseteq> dom (files (snd (nic_loop e self keys s w)))"
proof (induction keys arbitrary: s w)
  case Nil
  show ?case by simp
next
  case (Cons key keys)
  show ?case
  proof (cases "lookup_source key")
    case (Inl x)
    then show ?thesis by simp
  next
    case (Inr src)
    let ?w1 = "snd (nic_body e self src w)"
    let ?s1 = "if \<not> transport_failure (http_get e (url src)) then s else False"
    note a = nic_body_mono [of w e self src]
    show ?thesis
    proof (cases "nic_raise e src")
      case None
      from Cons.IH [where s = ?s1 and w = ?w1] a show ?thesis
        unfolding nic_loop_step [OF Inr] None by (simp only: option.case) blast
    next
      case (Some x)
      from a show ?thesis
        unfolding nic_loop_step [OF Inr] Some by simp
    qed
  qed
qed

lemma nic_loop_extracts:
  assumes "map lookup_source keys = map Inr srcs"
    and "src \<in> set (requested e srcs)" and "format src = ''zip''"
    and "archive_answer e src = Some z"
  shows "extract_dir_of self src \<in> dirs (snd (nic_loop e self keys s w)) \<and>
         list_all (\<lambda>m. member_present (extract_dir_of self src) (fst m)
                         (snd (nic_loop e self keys s w))) (written_members z)"
  using assms(1,2)
proof (induction keys arbitrary: srcs s w)
  case Nil
  then show ?case by simp
next
  case (Cons key keys)
  then obtain src' rest where srcs: "srcs = src' # rest" and src': "lookup_source key = Inr src'"
    and rest: "map lookup_source keys = map Inr rest"
    by (cases srcs) auto
  let ?w1 = "snd (nic_body e self src' w)"
  let ?s1 = "if \<not> transport_failure (http_get e (url src')) then s else False"
  let ?P = "\<lambda>v. extract_dir_of self src \<in> dirs v \<and>
         list_all (\<lambda>m. member_present (extract_dir_of self src) (fst m) v) (written_members z)"
  have here: "src' = src \<Longrightarrow> ?P ?w1"
    using nic_body_extracts [OF assms(3,4), of self w] by simp
  have keep: "\<And>v v'. ?P v \<Longrightarrow> dirs v \<subseteq> dirs v' \<Longrightarrow> dom (files v) \<subseteq> dom (files v') \<Longrightarrow> ?P v'"
  proof -
    fix v v' :: world assume p: "?P v" and d: "dirs v \<subseteq> dirs v'" and f: "dom (files v) \<subseteq> dom (files v')"
    from p have "list_all (\<lambda>m. member_present (extract_dir_of self src) (fst m) v')
        (written_members z)"
      unfolding list_all_iff using member_present_mono [OF _ d f] by blast
    with p d show "?P v'" by blast
  qed
  show ?case
  proof (cases "nic_raise e src'")
    case (Some x)
    with Cons.prems srcs have "src' = src" by simp
    with here show ?thesis
      unfolding nic_loop_step [OF src'] Some by simp
  next
    case None
    note m = nic_loop_mono [where w = ?w1 and e = e and self = self and keys = keys and s = ?s1]
    show ?thesis
    proof (cases "src' = src")
      case True
      from keep [OF here [OF True] conjunct1 [OF m] conjunct2 [OF m]] show ?thesis
        unfolding nic_loop_step [OF src'] None by simp
    next
      case False
      with Cons.prems srcs None have "src \<in> set (requested e rest)" by simp
      from Cons.IH [OF rest this, where s = ?s1 and w = ?w1] show ?thesis
        unfolding nic_loop_step [OF src'] None by simp
    qed
  qed
qed

lemma nic_loop_failed:
  assumes "map lookup_source keys = map Inr srcs"
    and "list_all (\<lambda>src. transport_failure (http_get e (url src))) srcs"
  shows "dirs (snd (nic_loop e self keys s w)) = dirs w"
  using assms
proof (induction keys arbitrary: srcs s w)
  case Nil
  then show ?case by simp
next
  case (Cons key keys)
  then obtain src rest where srcs: "srcs = src # rest" and src: "lookup_source key = Inr src"
    and rest: "map lookup_source keys = map Inr rest"
    by (cases srcs) auto
  from Cons.prems srcs have f: "transport_failure (http_get e (url src))"
    and fs: "list_all (\<lambda>src. transport_failure (http_get e (url src))) rest" by simp_all
  from f have n: "nic_raise e src = None"
    by (simp add: nic_raise_def archive_answer_None [symmetric])
  show ?case
    unfolding nic_loop_step [OF src] n
    using Cons.IH [OF rest fs] nic_body_failed [OF f] by simp
qed

lemma nic_loop_outside:
  assumes "take (Suc (length (output_dir self))) p \<noteq> output_dir self @ [''nic'']"
  shows "files (snd (nic_loop e self keys s w)) p = files w p"
proof (induction keys arbitrary: s w)
  case Nil
  show ?case by simp
next
  case (Cons key keys)
  show ?case
  proof (cases "lookup_source key")
    case (Inl x)
    then show ?thesis by simp
  next
    case (Inr src)
    show ?thesis
      unfolding nic_loop_step [OF Inr]
      using Cons.IH nic_body_outside [OF assms] by (simp split: option.splits)
  qed
qed

text \<open>The same for \<open>download_nic_data\<close>.\<close>

lemma download_nic_data_result:
  "fst (download_nic_data e self w) =
     (case first_raise e nic_downloads of
        Some x \<Rightarrow> Inl x
      | None \<Rightarrow> Inr (list_all (\<lambda>src. \<not> transport_failure (http_get e (url src))) nic_downloads))"
  "gets (snd (download_nic_data e self w)) = gets w @ map url (requested e nic_downloads)"
  unfolding download_nic_data_def
  using nic_loop_result [OF nic_sources_lookup, of e self True
      "banner self ''Downloading FFIEC NIC Bulk Data'' w"]
  by (simp_all split: option.splits)

lemma download_nic_data_extracts:
  assumes "src \<in> set (requested e nic_downloads)" and "format src = ''zip''"
    and "archive_answer e src = Some z"
  shows "extract_dir_of self src \<in> dirs (snd (download_nic_data e self w)) \<and>
         list_all (\<lambda>m. member_present (extract_dir_of self src) (fst m)
                         (snd (download_nic_data e self w))) (written_members z)"
  unfolding download_nic_data_def
  by (rule nic_loop_extracts [OF nic_sources_lookup assms])

lemma download_nic_data_failed:
  "list_all (\<lambda>src. transport_failure (http_get e (url src))) nic_downloads \<Longrightarrow>
   dirs (snd (download_nic_data e self w)) = dirs w"
  unfolding download_nic_data_def
  using nic_loop_failed [OF nic_sources_lookup, of e self True
      "banner self ''Downloading FFIEC NIC Bulk Data'' w"]
  by simp

lemma download_nic_data_outside:
  "take (Suc (length (output_dir self))) p \<noteq> output_dir self @ [''nic''] \<Longrightarrow>
   files (snd (download_nic_data e self w)) p = files w p"
  unfolding download_nic_data_def
  using nic_loop_outside [of self p e nic_sources True
      "banner self ''Downloading FFIEC NIC Bulk Data'' w"]
  by simp

lemma requested_all: "first_raise e srcs = None \<Longrightarrow> requested e srcs = srcs"
  by (induction srcs) (simp_all split: option.splits)



lemma offline_fails: "transport_failure (http_get offline u)"
  by (simp add: offline_def transport_failure_def)

subsection \<open>The full sequence\<close>

lemma manifest_path_outside [simp]:
  "manifest_path self \<noteq> output_dir self @ [''fdic'', f]"
  "manifest_path self \<noteq> json_path self" "manifest_path self \<noteq> csv_path self"
  "take (Suc (length (output_dir self))) (manifest_path self) \<noteq> output_dir self @ [''nic'']"
  by (simp_all add: manifest_path_def json_path_def csv_path_def)

lemma download_fdic_failed_banks_returns:
  "\<exists>b. fst (download_fdic_failed_banks e self w) = Inr b"
  by (simp add: download_fdic_failed_banks_def lookup_source_def DATA_SOURCES_def Let_def
      split_beta)

lemma download_fdic_failed_banks_dirs:
  "dirs (snd (download_fdic_failed_banks e self w)) = dirs w"
  by (simp add: download_fdic_failed_banks_def lookup_source_def DATA_SOURCES_def Let_def
      split_beta)

lemma download_fdic_failed_banks_manifest:
  "files (snd (download_fdic_failed_banks e self w)) (manifest_path self) =
   files w (manifest_path self)"
  by (simp add: download_fdic_failed_banks_def lookup_source_def DATA_SOURCES_def Let_def
      split_beta download_file_outside)

lemma download_fdic_failures_api_dirs:
  "dirs (snd (download_fdic_failures_api e self w)) = dirs w"
  by (cases "api_document e")
     (auto simp add: api_step_unfold Let_def seq_def split_beta json_to_csv_files
        download_fdic_api_data_failures split: sum.splits bool.splits)

lemma download_fdic_failures_api_manifest:
  "files (snd (download_fdic_failures_api e self w)) (manifest_path self) =
   files w (manifest_path self)"
  by (cases "api_document e")
     (auto simp add: api_step_unfold Let_def seq_def split_beta json_to_csv_files
        download_fdic_api_data_failures split: sum.splits bool.splits)

lemma json_to_csv_result:
  "fst (json_to_csv self records p w) =
     (case records_error records of Some x \<Rightarrow> Inl x | None \<Rightarrow> Inr ())"
  by (simp add: json_to_csv_def records_error_def Let_def split_beta
      split: sum.splits option.splits)

lemma api_step_result:
  "fst (download_fdic_failures_api e self w) =
     (case api_document e of
        None \<Rightarrow> Inr False
      | Some d \<Rightarrow> (case doc_error d of Some x \<Rightarrow> Inl x | None \<Rightarrow> Inr (truthy d)))"
proof (cases "api_document e")
  case None
  then show ?thesis by (simp add: api_step_unfold Let_def)
next
  case (Some d)
  show ?thesis
  proof (cases "truthy d")
    case False
    with Some show ?thesis by (simp add: api_step_unfold Let_def doc_error_def)
  next
    case True
    show ?thesis
    proof (cases "py_in ''data'' d")
      case (Inl x)
      with Some True show ?thesis by (simp add: api_step_unfold Let_def doc_error_def)
    next
      case (Inr b)
      show ?thesis
      proof (cases b)
        case False
        with Some True Inr show ?thesis by (simp add: api_step_unfold Let_def doc_error_def)
      next
        case b: True
        show ?thesis
        proof (cases "getitem d ''data''")
          case (Inl x)
          with Some True Inr b show ?thesis
            by (simp add: api_step_unfold Let_def doc_error_def)
        next
          case r: (Inr records)
          from Some True Inr b r show ?thesis
            by (simp add: api_step_unfold Let_def doc_error_def seq_const json_to_csv_result
                split: option.splits)
        qed
      qed
    qed
  qed
qed

lemma instructions_frame:
  "fst (download_chicago_fed_data self w) = True"
  "dirs (snd (download_chicago_fed_data self w)) = dirs w"
  "dom (files w) \<subseteq> dom (files (snd (download_chicago_fed_data self w)))"
  "fst (download_cdr_info self w) = True"
  "dirs (snd (download_cdr_info self w)) = dirs w"
  "dom (files w) \<subseteq> dom (files (snd (download_cdr_info self w)))"
proof -
  have fl: "\<And>ms v. dirs (fold (log self) ms v) = dirs v \<and> files (fold (log self) ms v) = files v"
  proof -
    fix ms :: "string list" and v
    show "dirs (fold (log self) ms v) = dirs v \<and> files (fold (log self) ms v) = files v"
      by (induction ms arbitrary: v) simp_all
  qed
  show "fst (download_chicago_fed_data self w) = True"
    by (simp add: download_chicago_fed_data_def Let_def)
  show "dirs (snd (download_chicago_fed_data self w)) = dirs w"
    unfolding download_chicago_fed_data_def Let_def by (simp add: fl)
  show "dom (files w) \<subseteq> dom (files (snd (download_chicago_fed_data self w)))"
    unfolding download_chicago_fed_data_def Let_def by (auto simp add: fl)
  show "fst (download_cdr_info self w) = True"
    by (simp add: download_cdr_info_def Let_def)
  show "dirs (snd (download_cdr_info self w)) = dirs w"
    by (simp add: download_cdr_info_def Let_def)
  show "dom (files w) \<subseteq> dom (files (snd (download_cdr_info self w)))"
    by (auto simp add: download_cdr_info_def Let_def)
qed

lemma save_manifest_frame:
  "dirs (save_manifest e self r w) = dirs w"
  "files (save_manifest e self r w) =
     (files w)(manifest_path self \<mapsto> ManifestDump (now e) (output_dir self) r
                 (map (\<lambda>(k, v). (k, description v)) DATA_SOURCES))"
  by (simp_all add: save_manifest_def Let_def)

text \<open>
  The three ways the full sequence ends: the API step raises, the NIC step raises, or all
  five steps return and the manifest is written.
\<close>

lemma download_all_api_raised:
  assumes "fst (download_fdic_failures_api e self (snd (download_fdic_failed_banks e self w))) = Inl x"
  shows "download_all e self w =
           (Inl x, snd (download_fdic_failures_api e self (snd (download_fdic_failed_banks e self w))))"
proof -
  obtain b1 where b1: "fst (download_fdic_failed_banks e self w) = Inr b1"
    using download_fdic_failed_banks_returns by blast
  show ?thesis
    unfolding download_all_def seq_Inr [OF b1] seq_Inl [OF assms] ..
qed

lemma download_all_nic_raised:
  assumes "fst (download_fdic_failures_api e self (snd (download_fdic_failed_banks e self w))) = Inr b2"
    and "fst (download_nic_data e self
           (snd (download_fdic_failures_api e self (snd (download_fdic_failed_banks e self w))))) = Inl x"
  shows "download_all e self w = (Inl x, after_nic e self w)"
proof -
  obtain b1 where b1: "fst (download_fdic_failed_banks e self w) = Inr b1"
    using download_fdic_failed_banks_returns by blast
  show ?thesis
    unfolding download_all_def seq_Inr [OF b1] seq_Inr [OF assms(1)] seq_Inl [OF assms(2)]
      after_nic_def ..
qed

lemma download_all_returned:
  assumes "fst (download_fdic_failures_api e self (snd (download_fdic_failed_banks e self w))) = Inr b2"
    and "fst (download_nic_data e self
           (snd (download_fdic_failures_api e self (snd (download_fdic_failed_banks e self w))))) = Inr b3"
  shows "\<exists>b1. download_all e self w =
           (Inr [(''fdic_failed_banks'', b1), (''fdic_api'', b2), (''nic_data'', b3),
                 (''chicago_fed_info'', True), (''cdr_info'', True)],
            save_manifest e self
              [(''fdic_failed_banks'', b1), (''fdic_api'', b2), (''nic_data'', b3),
               (''chicago_fed_info'', True), (''cdr_info'', True)]
              (snd (download_cdr_info self (snd (download_chicago_fed_data self
                 (after_nic e self w))))))"
proof -
  obtain b1 where b1: "fst (download_fdic_failed_banks e self w) = Inr b1"
    using download_fdic_failed_banks_returns by blast
  have "download_all e self w =
           (Inr [(''fdic_failed_banks'', b1), (''fdic_api'', b2), (''nic_data'', b3),
                 (''chicago_fed_info'', True), (''cdr_info'', True)],
            save_manifest e self
              [(''fdic_failed_banks'', b1), (''fdic_api'', b2), (''nic_data'', b3),
               (''chicago_fed_info'', True), (''cdr_info'', True)]
              (snd (download_cdr_info self (snd (download_chicago_fed_data self
                 (after_nic e self w))))))"
    unfolding download_all_def seq_Inr [OF b1] seq_Inr [OF assms(1)] seq_Inr [OF assms(2)]
    by (simp add: returns_def seq_def instructions_frame after_nic_def Let_def)
  then show ?thesis by blast
qed

lemma after_nic_manifest:
  "files (after_nic e self w) (manifest_path self) = files w (manifest_path self)"
  by (simp add: after_nic_def download_nic_data_outside download_fdic_failures_api_manifest
      download_fdic_failed_banks_manifest)

lemma sequence_error_cases:
  "sequence_error e =
     (case fst (download_fdic_failures_api e self w) of
        Inl x \<Rightarrow> Some x
      | Inr b \<Rightarrow> first_raise e nic_downloads)"
  by (simp add: sequence_error_def api_step_result split: option.splits)

lemma download_all_ok:
  assumes "sequence_error e = None"
  shows "\<exists>results.
           fst (download_all e self w) = Inr results \<and>
           map fst results = [''fdic_failed_banks'', ''fdic_api'', ''nic_data'',
                              ''chicago_fed_info'', ''cdr_info''] \<and>
           snd (download_all e self w) =
             save_manifest e self results
               (snd (download_cdr_info self (snd (download_chicago_fed_data self
                  (after_nic e self w)))))"
proof -
  let ?w1 = "snd (download_fdic_failed_banks e self w)"
  let ?w2 = "snd (download_fdic_failures_api e self ?w1)"
  from assms sequence_error_cases [of e self ?w1]
  obtain b2 where b2: "fst (download_fdic_failures_api e self ?w1) = Inr b2"
    and n: "first_raise e nic_downloads = None"
    by (cases "fst (download_fdic_failures_api e self ?w1)") simp_all
  from n have b3: "fst (download_nic_data e self ?w2) =
      Inr (list_all (\<lambda>src. \<not> transport_failure (http_get e (url src))) nic_downloads)"
    by (simp add: download_nic_data_result)
  from download_all_returned [OF b2 b3] show ?thesis by force
qed

lemma download_all_error:
  assumes "sequence_error e = Some x"
  shows "fst (download_all e self w) = Inl x \<and>
         files (snd (download_all e self w)) (manifest_path self) = files w (manifest_path self)"
proof -
  let ?w1 = "snd (download_fdic_failed_banks e self w)"
  let ?w2 = "snd (download_fdic_failures_api e self ?w1)"
  show ?thesis
  proof (cases "fst (download_fdic_failures_api e self ?w1)")
    case (Inl y)
    with assms sequence_error_cases [of e self ?w1] have "y = x" by simp
    with download_all_api_raised [OF Inl] show ?thesis
      by (simp add: download_fdic_failures_api_manifest download_fdic_failed_banks_manifest)
  next
    case (Inr b2)
    with assms sequence_error_cases [of e self ?w1]
    have "first_raise e nic_downloads = Some x" by simp
    then have "fst (download_nic_data e self ?w2) = Inl x"
      by (simp add: download_nic_data_result)
    from download_all_nic_raised [OF Inr this] show ?thesis
      by (simp add: after_nic_manifest)
  qed
qed

lemma download_all_world:
  assumes "fst (download_all e self w) = Inr results"
  shows "sequence_error e = None \<and>
         snd (download_all e self w) =
           save_manifest e self results
             (snd (download_cdr_info self (snd (download_chicago_fed_data self
                (after_nic e self w)))))"
proof (cases "sequence_error e")
  case None
  from download_all_ok [OF None, of self w] assms None show ?thesis by auto
next
  case (Some x)
  from download_all_error [OF Some, of self w] assms show ?thesis by simp
qed

lemma download_all_mono:
  assumes "fst (download_all e self w) = Inr results"
  shows "dirs (after_nic e self w) \<subseteq> dirs (snd (download_all e self w))"
    and "dom (files (after_nic e self w)) \<subseteq> dom (files (snd (download_all e self w)))"
proof -
  let ?w4 = "snd (download_chicago_fed_data self (after_nic e self w))"
  let ?w5 = "snd (download_cdr_info self ?w4)"
  have a: "dom (files (after_nic e self w)) \<subseteq> dom (files ?w4)"
    by (rule instructions_frame)
  have b: "dom (files ?w4) \<subseteq> dom (files ?w5)"
    by (rule instructions_frame)
  have c: "dom (files ?w5) \<subseteq> dom (files (save_manifest e self results ?w5))"
    by (auto simp add: save_manifest_frame)
  from a b c show "dom (files (after_nic e self w)) \<subseteq> dom (files (snd (download_all e self w)))"
    unfolding conjunct2 [OF download_all_world [OF assms]] by blast
  show "dirs (after_nic e self w) \<subseteq> dirs (snd (download_all e self w))"
    unfolding conjunct2 [OF download_all_world [OF assms]]
    by (simp only: save_manifest_frame instructions_frame)
qed

lemma zip_sources_are_archives:
  "(key, src) \<in> set DATA_SOURCES \<Longrightarrow> format src = ''zip'' \<Longrightarrow> src \<in> set nic_downloads"
proof -
  have "\<forall>(k, s) \<in> set DATA_SOURCES. format s = ''zip'' \<longrightarrow> s \<in> set nic_downloads"
    unfolding nic_downloads_def
    by (simp add: DATA_SOURCES_def startswith_def)
  then show "(key, src) \<in> set DATA_SOURCES \<Longrightarrow> format src = ''zip'' \<Longrightarrow> src \<in> set nic_downloads"
    by blast
qed

lemma download_all_extracts:
  assumes "fst (download_all e self w) = Inr results"
    and "(key, src) \<in> set DATA_SOURCES" and "format src = ''zip''"
    and "archive_answer e src = Some z"
  shows "extract_dir_of self src \<in> dirs (snd (download_all e self w)) \<and>
         list_all (\<lambda>m. member_present (extract_dir_of self src) (fst m)
                         (snd (download_all e self w))) (written_members z)"
proof -
  from download_all_world [OF assms(1)] have "sequence_error e = None" by simp
  then have "first_raise e nic_downloads = None"
    by (simp add: sequence_error_def split: option.splits)
  then have r: "requested e nic_downloads = nic_downloads" by (rule requested_all)
  from zip_sources_are_archives [OF assms(2,3)] r
  have "src \<in> set (requested e nic_downloads)" by simp
  from download_nic_data_extracts [OF this assms(3,4), of self
      "snd (download_fdic_failures_api e self (snd (download_fdic_failed_banks e self w)))"]
  have d: "extract_dir_of self src \<in> dirs (after_nic e self w)"
    and m: "list_all (\<lambda>m. member_present (extract_dir_of self src) (fst m) (after_nic e self w))
              (written_members z)"
    unfolding after_nic_def by simp_all
  note mono = download_all_mono [OF assms(1)]
  from m have "list_all (\<lambda>m. member_present (extract_dir_of self src) (fst m)
                         (snd (download_all e self w))) (written_members z)"
    unfolding list_all_iff using member_present_mono [OF _ mono] by blast
  with d mono(1) show ?thesis by blast
qed

lemma download_all_failed:
  assumes "list_all (\<lambda>src. transport_failure (http_get e (url src))) nic_downloads"
    and "fst (download_all e self w) = Inr results"
  shows "dirs (snd (download_all e self w)) = dirs w"
  unfolding conjunct2 [OF download_all_world [OF assms(2)]]
  by (simp add: save_manifest_frame instructions_frame after_nic_def
      download_nic_data_failed [OF assms(1)] download_fdic_failures_api_dirs
      download_fdic_failed_banks_dirs)

lemma offline_document: "api_document offline = None"
  by (simp add: api_document_def offline_def)

lemma main_all:
  assumes "arg_all a" and "\<not> arg_list a"
  shows "main e a w =
           seq (download_all e (fst (init (arg_output_dir a) (\<not> arg_quiet a) w))
                               (snd (init (arg_output_dir a) (\<not> arg_quiet a) w)))
               (\<lambda>results w1. (Inr (), print_summary results w1))"
  using assms by (simp add: main_def split_beta)

lemma print_summary_dirs: "dirs (print_summary r w) = dirs w"
proof -
  have "dirs (mute (print_summary r w)) = dirs (mute w)" by (simp only: mute_print_summary)
  then show ?thesis by (simp only: mute_fields)
qed

lemma first_raise_None: "(\<And>src. nic_raise e src = None) \<Longrightarrow> first_raise e srcs = None"
  by (induction srcs) simp_all





lemma nested_archives_answer:
  "archive_answer nested_archives src =
     Some (ZipOk [(''sub/inner.csv'', ''x''), (''../evil.txt'', ''y'')])"
  "nic_raise nested_archives src = None"
  "\<not> transport_failure (http_get nested_archives u)"
  by (simp_all add: nic_raise_def archive_answer_def nested_archives_def online_def
      raise_for_status_def transport_failure_def)

lemma arcname_examples:
  "arcname ''sub/inner.csv'' = [''sub'', ''inner.csv'']"
  "arcname ''../evil.txt'' = [''evil.txt'']"
  "\<not> is_dir ''sub/inner.csv''" "\<not> is_dir ''../evil.txt''"
  by (simp_all add: arcname_def is_dir_def)


lemma record_document_error:
  "doc_error (JObj [(''data'', JArr [JObj [(''NAME'', JStr ''First Bank'')]])]) = None"
  by (simp add: doc_error_def records_error_def)






lemma nested_archives_sequence: "sequence_error nested_archives = None"
proof -
  have doc: "api_document nested_archives
     = Some (JObj [(''data'', JArr [JObj [(''NAME'', JStr ''First Bank'')]])])"
    by (simp add: api_document_def nested_archives_def online_def raise_for_status_def)
  have "first_raise nested_archives nic_downloads = None"
    by (rule first_raise_None) (rule nested_archives_answer)
  with doc record_document_error show ?thesis by (simp add: sequence_error_def)
qed

lemma offline_sequence: "sequence_error offline = None"
proof -
  have "first_raise offline nic_downloads = None"
    by (rule first_raise_None) (simp add: nic_raise_def archive_answer_def offline_def)
  with offline_document show ?thesis by (simp add: sequence_error_def)
qed

lemma attributes_active_source:
  "(''nic_attributes_csv'', attributes_active) \<in> set DATA_SOURCES"
  "format attributes_active = ''zip''"
  "stem (filename attributes_active) = ''NIC_Attributes_Active''"
  by (simp_all add: DATA_SOURCES_def attributes_active_def stem_def)

section \<open>The claims\<close>

subsection \<open>C1: what \<open>--list\<close> does to the filesystem\<close>

text \<open>
  C1 (as amended). An invocation with \<open>--list\<close> (whatever the other flags) returns normally,
  writes no file and sends no request; it does create directories: the output directory
  with its parents and the four subdirectories \<open>fdic\<close>, \<open>nic\<close>, \<open>chicago_fed\<close>,
  \<open>metadata\<close>, because the downloader is constructed before the flag is looked at.
\<close>

theorem main_list_creates_directories_only:
  assumes "arg_list a"
  shows "fst (main e a w) = Inr () \<and>
         files (snd (main e a w)) = files w \<and>
         gets (snd (main e a w)) = gets w \<and>
         dirs (snd (main e a w)) =
           dirs w \<union> set (ancestors_and_self (arg_output_dir a)) \<union>
           {arg_output_dir a @ [''fdic''], arg_output_dir a @ [''nic''],
            arg_output_dir a @ [''chicago_fed''], arg_output_dir a @ [''metadata'']}"
proof -
  let ?i = "init (arg_output_dir a) (\<not> arg_quiet a) w"
  have r: "main e a w = (Inr (), list_sources (fst ?i) (snd ?i))"
    using assms by (simp add: main_def split_beta)
  have "mute (snd (main e a w)) = mute (snd ?i)"
    by (simp add: r)
  then have "dirs (mute (snd (main e a w))) = dirs (mute (snd ?i))"
    and "files (mute (snd (main e a w))) = files (mute (snd ?i))"
    and "gets (mute (snd (main e a w))) = gets (mute (snd ?i))"
    by simp_all
  then have "dirs (snd (main e a w)) = dirs (snd ?i)"
    and "files (snd (main e a w)) = files (snd ?i)"
    and "gets (snd (main e a w)) = gets (snd ?i)"
    by (simp_all only: mute_fields)
  then show ?thesis
    by (simp only: init_world r fst_conv simp_thms)
qed

text \<open>Instance: \<open>--list\<close> alone, on an empty filesystem.\<close>

theorem main_list_creates_directories_only_witness:
  "arg_list list_only \<and>
   fst (main offline list_only empty_world) = Inr () \<and>
   files (snd (main offline list_only empty_world)) = Map.empty \<and>
   gets (snd (main offline list_only empty_world)) = []"
  using main_list_creates_directories_only [of list_only offline empty_world]
  by (simp add: list_only_def empty_world_def)

text \<open>
  C1 as stated says that no directory is created. Started with only \<open>--list\<close> on an empty
  filesystem, the program leaves six directories.
\<close>

theorem main_list_counterexample:
  "dirs empty_world = {} \<and>
   dirs (snd (main offline list_only empty_world)) =
     {[''data''], [''data'', ''downloads''], [''data'', ''downloads'', ''fdic''],
      [''data'', ''downloads'', ''nic''], [''data'', ''downloads'', ''chicago_fed''],
      [''data'', ''downloads'', ''metadata'']}"
proof -
  have "dirs (snd (main offline list_only empty_world)) = dirs (snd (init [''data'', ''downloads''] True empty_world))"
  proof -
    have "mute (snd (main offline list_only empty_world)) = mute (snd (init [''data'', ''downloads''] True empty_world))"
      by (simp add: main_def list_only_def split_beta)
    then have "dirs (mute (snd (main offline list_only empty_world))) = dirs (mute (snd (init [''data'', ''downloads''] True empty_world)))"
      by simp
    then show ?thesis by (simp only: mute_fields)
  qed
  then show ?thesis
    by (auto simp add: init_world ancestors_and_self_def empty_world_def upt_rec)
qed

subsection \<open>C2: the NIC step downloads six files, five of them archives\<close>




subsection \<open>C3: a transport failure makes download\_file return False\<close>

text \<open>
  C3 (as amended). For every URL and destination path, when the transfer fails in a way the
  HTTP library signals (\<open>session.get\<close> raises a \<open>RequestException\<close> such as a timeout or a
  connection error, the status is one \<open>raise_for_status\<close> rejects, that is 4xx or 5xx, or the
  body stream breaks off), \<open>download_file\<close> returns \<open>False\<close>. It cannot raise: its result
  type has no exception. What is left on disk is stated too: nothing new when the request or
  the status check failed, the chunks received so far (an empty or truncated file) when the
  stream broke; in neither case is success reported.
\<close>

theorem download_file_transport_failure:
  assumes "transport_failure (http_get e u)"
  shows "fst (download_file e self u output_path descr w) = False \<and>
         files (snd (download_file e self u output_path descr w)) =
           (case http_get e u of
              RequestFailed msg \<Rightarrow> files w
            | Response status_code content_length chunks broken \<Rightarrow>
                if raise_for_status status_code then files w
                else (files w)(output_path \<mapsto> Bytes (concat chunks)))"
  using assms by (simp add: download_file_result download_file_files)

text \<open>Instance: a 200 response whose stream breaks after the chunk \<open>ab\<close>.\<close>

theorem download_file_transport_failure_witness:
  "transport_failure (http_get broken_stream ''https://www.fdic.gov/bank-failures/download-data.csv'') \<and>
   fst (download_file broken_stream default_downloader
          ''https://www.fdic.gov/bank-failures/download-data.csv''
          [''data'', ''downloads'', ''fdic'', ''fdic_failed_banks.csv''] [] empty_world) = False \<and>
   files (snd (download_file broken_stream default_downloader
          ''https://www.fdic.gov/bank-failures/download-data.csv''
          [''data'', ''downloads'', ''fdic'', ''fdic_failed_banks.csv''] [] empty_world))
     [''data'', ''downloads'', ''fdic'', ''fdic_failed_banks.csv''] = Some (Bytes ''ab'')"
proof -
  have h: "transport_failure
             (http_get broken_stream ''https://www.fdic.gov/bank-failures/download-data.csv'')"
    by (simp add: broken_stream_def transport_failure_def)
  from download_file_transport_failure [OF h, of default_downloader
        "[''data'', ''downloads'', ''fdic'', ''fdic_failed_banks.csv'']" "[]" empty_world] h
  show ?thesis
    by (simp add: broken_stream_def raise_for_status_def)
qed

text \<open>
  C3 as stated counts every status outside 2xx as a failure. At a response with status 304
  (\<open>raise_for_status\<close> does not raise for it) the method writes the empty body and returns
  \<open>True\<close>.
\<close>

theorem download_file_status_304_counterexample:
  "http_get not_modified ''https://www.fdic.gov/bank-failures/download-data.csv''
     = Response 304 None [] None \<and>
   download_file not_modified (default_downloader\<lparr>verbose := False\<rparr>)
     ''https://www.fdic.gov/bank-failures/download-data.csv''
     [''data'', ''downloads'', ''fdic'', ''fdic_failed_banks.csv''] [] empty_world
   = (True, \<lparr>dirs = {},
             files = [[''data'', ''downloads'', ''fdic'', ''fdic_failed_banks.csv''] \<mapsto> Bytes []],
             gets = [''https://www.fdic.gov/bank-failures/download-data.csv''],
             out = []\<rparr>)"
  by (simp add: not_modified_def online_def download_file_def raise_for_status_def log_def
      default_downloader_def empty_world_def write_file_def Let_def)

subsection \<open>C4: the full sequence ends with the manifest unless a step raises\<close>




subsection \<open>C5: what the full sequence leaves of each archive\<close>

text \<open>
  C5 (as amended). After a full sequence that completed, for every source of format \<open>zip\<close>
  whose download succeeded, the directory \<open>nic/<stem of the archive's file name>\<close> exists
  and holds every member that extraction wrote, each at its path inside the directory: a
  directory entry as a directory, any other member as a file, under its name without empty,
  \<open>.\<close> and \<open>..\<close> components. For a valid archive these are all the members it lists; for
  one that fails with \<open>BadZipFile\<close> they are the members written before the failure.
\<close>

theorem download_all_extracts_archives:
  assumes "fst (download_all e self w) = Inr results"
  shows "\<forall>key src z.
           (key, src) \<in> set DATA_SOURCES \<and> format src = ''zip'' \<and>
           archive_answer e src = Some z \<longrightarrow>
             output_dir self @ [''nic'', stem (filename src)]
               \<in> dirs (snd (download_all e self w)) \<and>
             list_all (\<lambda>m. member_present (output_dir self @ [''nic'', stem (filename src)])
                             (fst m) (snd (download_all e self w)))
               (written_members z)"
proof (intro allI impI)
  fix key src z
  assume h: "(key, src) \<in> set DATA_SOURCES \<and> format src = ''zip'' \<and>
             archive_answer e src = Some z"
  then have k: "(key, src) \<in> set DATA_SOURCES" and f: "format src = ''zip''"
    and a: "archive_answer e src = Some z" by simp_all
  from download_all_extracts [OF assms k f a]
  show "output_dir self @ [''nic'', stem (filename src)]
               \<in> dirs (snd (download_all e self w)) \<and>
        list_all (\<lambda>m. member_present (output_dir self @ [''nic'', stem (filename src)])
                             (fst m) (snd (download_all e self w)))
               (written_members z)"
    unfolding extract_dir_of_def .
qed

text \<open>
  Instance: all downloads succeed and each archive holds the members \<open>sub/inner.csv\<close> and
  \<open>../evil.txt\<close>; both are files inside \<open>nic/NIC_Attributes_Active\<close>.
\<close>

theorem download_all_extracts_archives_witness:
  "(\<exists>results. fst (download_all nested_archives default_downloader empty_world) = Inr results) \<and>
   (''nic_attributes_csv'', attributes_active) \<in> set DATA_SOURCES \<and>
   format attributes_active = ''zip'' \<and>
   archive_answer nested_archives attributes_active =
     Some (ZipOk [(''sub/inner.csv'', ''x''), (''../evil.txt'', ''y'')]) \<and>
   [''data'', ''downloads'', ''nic'', ''NIC_Attributes_Active'']
     \<in> dirs (snd (download_all nested_archives default_downloader empty_world)) \<and>
   files (snd (download_all nested_archives default_downloader empty_world))
     [''data'', ''downloads'', ''nic'', ''NIC_Attributes_Active'', ''sub'', ''inner.csv''] \<noteq> None \<and>
   files (snd (download_all nested_archives default_downloader empty_world))
     [''data'', ''downloads'', ''nic'', ''NIC_Attributes_Active'', ''evil.txt''] \<noteq> None"
proof -
  from download_all_ok [OF nested_archives_sequence, of default_downloader empty_world]
  obtain results where
    r: "fst (download_all nested_archives default_downloader empty_world) = Inr results"
    by (elim exE conjE)
  have h: "(''nic_attributes_csv'', attributes_active) \<in> set DATA_SOURCES \<and>
           format attributes_active = ''zip'' \<and>
           archive_answer nested_archives attributes_active =
             Some (ZipOk [(''sub/inner.csv'', ''x''), (''../evil.txt'', ''y'')])"
    by (simp add: attributes_active_source nested_archives_answer)
  have od: "output_dir default_downloader = [''data'', ''downloads'']"
    by (simp add: default_downloader_def)
  from download_all_extracts_archives [OF r, rule_format, OF h]
  have "[''data'', ''downloads'', ''nic'', ''NIC_Attributes_Active'']
     \<in> dirs (snd (download_all nested_archives default_downloader empty_world)) \<and>
   files (snd (download_all nested_archives default_downloader empty_world))
     [''data'', ''downloads'', ''nic'', ''NIC_Attributes_Active'', ''sub'', ''inner.csv''] \<noteq> None \<and>
   files (snd (download_all nested_archives default_downloader empty_world))
     [''data'', ''downloads'', ''nic'', ''NIC_Attributes_Active'', ''evil.txt''] \<noteq> None"
    unfolding attributes_active_source(3) od
    by (simp add: written_members_def member_present_def arcname_examples)
  moreover from r have "\<exists>results.
      fst (download_all nested_archives default_downloader empty_world) = Inr results" ..
  ultimately show ?thesis using h by simp
qed

text \<open>
  C5 as stated promises the directory in every run. With the network down, a run with
  \<open>--all\<close> on an empty filesystem completes and leaves only the six directories of the
  constructor: there is no \<open>nic/NIC_Attributes_Active\<close>, although that source has format
  \<open>zip\<close>.
\<close>

theorem download_all_failed_download_counterexample:
  "lookup_source ''nic_attributes_csv'' = Inr attributes_active \<and>
   format attributes_active = ''zip'' \<and>
   fst (main offline all_flag empty_world) = Inr () \<and>
   dirs (snd (main offline all_flag empty_world)) =
     {[''data''], [''data'', ''downloads''], [''data'', ''downloads'', ''fdic''],
      [''data'', ''downloads'', ''nic''], [''data'', ''downloads'', ''chicago_fed''],
      [''data'', ''downloads'', ''metadata'']}"
proof -
  define i where "i = init [''data'', ''downloads''] True empty_world"
  have a: "arg_all all_flag" "\<not> arg_list all_flag" by (simp_all add: all_flag_def)
  have o: "init (arg_output_dir all_flag) (\<not> arg_quiet all_flag) empty_world = i"
    by (simp add: all_flag_def i_def)
  from download_all_ok [OF offline_sequence, of "fst i" "snd i"] obtain results where
    r: "fst (download_all offline (fst i) (snd i)) = Inr results"
    by (elim exE conjE)
  have "main offline all_flag empty_world =
      seq (download_all offline (fst i) (snd i))
        (\<lambda>results w1. (Inr (), print_summary results w1))"
    unfolding main_all [OF a] o ..
  also have "\<dots> = (Inr (), print_summary results (snd (download_all offline (fst i) (snd i))))"
    by (rule seq_Inr [OF r])
  finally have m: "main offline all_flag empty_world =
      (Inr (), print_summary results (snd (download_all offline (fst i) (snd i))))" .
  have fl: "list_all (\<lambda>src. transport_failure (http_get offline (url src))) nic_downloads"
    by (simp add: list_all_iff offline_fails)
  have d: "dirs (snd (download_all offline (fst i) (snd i))) = dirs (snd i)"
    by (rule download_all_failed [OF fl r])
  have di: "dirs (snd i) =
     {[''data''], [''data'', ''downloads''], [''data'', ''downloads'', ''fdic''],
      [''data'', ''downloads'', ''nic''], [''data'', ''downloads'', ''chicago_fed''],
      [''data'', ''downloads'', ''metadata'']}"
    unfolding i_def init_world
    by (auto simp add: ancestors_and_self_def empty_world_def upt_rec)
  have l: "lookup_source ''nic_attributes_csv'' = Inr attributes_active"
    by (simp add: lookup_source_def DATA_SOURCES_def attributes_active_def)
  have g: "dirs (snd (main offline all_flag empty_world)) =
     {[''data''], [''data'', ''downloads''], [''data'', ''downloads'', ''fdic''],
      [''data'', ''downloads'', ''nic''], [''data'', ''downloads'', ''chicago_fed''],
      [''data'', ''downloads'', ''metadata'']}"
    unfolding m using d di by (simp add: print_summary_dirs)
  have s: "fst (main offline all_flag empty_world) = Inr ()"
    unfolding m by simp
  from l attributes_active_source(2) s g show ?thesis by - (intro conjI, assumption+)
qed

subsection \<open>C6: what the API step writes\<close>




subsection \<open>C7: a corrupt archive gives an empty list and a logged error\<close>

text \<open>
  C7. For every archive path, when opening the archive raises \<open>BadZipFile\<close>, \<open>extract_zip\<close>
  returns the empty list instead of raising, and its only effect is the call
  \<open>self.log("  ERROR: Bad zip file ...")\<close>: the line is printed in verbose mode, and nothing
  is written.
\<close>

theorem extract_zip_corrupt_archive:
  assumes "files w zip_path = Some c" and "zipfile e c = BadOnOpen msg"
  shows "extract_zip e self zip_path extract_dir w =
           (Inr [], log self (''  ERROR: Bad zip file '' @ str_path zip_path @ '': '' @ msg) w) \<and>
         out (snd (extract_zip e self zip_path extract_dir w)) =
           (if verbose self
            then out w @ [Log (''  ERROR: Bad zip file '' @ str_path zip_path @ '': '' @ msg)]
            else out w)"
  using assms by (simp add: extract_zip_def log_def)

text \<open>Instance: a file of junk bytes that the zip reader rejects on opening.\<close>

theorem extract_zip_corrupt_archive_witness:
  "files junk_archive [''nic'', ''a.zip''] = Some (Bytes ''junk'') \<and>
   zipfile offline (Bytes ''junk'') = BadOnOpen ''File is not a zip file'' \<and>
   extract_zip offline default_downloader [''nic'', ''a.zip''] [''nic'', ''a''] junk_archive =
     (Inr [], junk_archive\<lparr>out := [Log ''  ERROR: Bad zip file nic/a.zip: File is not a zip file'']\<rparr>)"
proof -
  have f: "files junk_archive [''nic'', ''a.zip''] = Some (Bytes ''junk'')"
    by (simp add: junk_archive_def)
  have z: "zipfile offline (Bytes ''junk'') = BadOnOpen ''File is not a zip file''"
    by (simp add: offline_def)
  from extract_zip_corrupt_archive [OF f z, of default_downloader "[''nic'', ''a'']"] f z
  show ?thesis
    by (simp add: log_def default_downloader_def junk_archive_def empty_world_def)
qed

subsection \<open>C8: a valid archive gives one path per listed entry\<close>

text \<open>
  C8. For every archive that opens and extracts without error, \<open>extract_zip\<close> returns the
  list \<open>[extract_dir / name for name in zf.namelist()]\<close>, whose length is the number of
  entries the archive lists.
\<close>

theorem extract_zip_length:
  assumes "files w zip_path = Some c" and "zipfile e c = ZipOk members"
  shows "\<exists>extracted w'.
           extract_zip e self zip_path extract_dir w = (Inr extracted, w') \<and>
           length extracted = length members \<and>
           extracted = map (pjoin extract_dir) (map fst members)"
  using assms by (simp add: extract_zip_def Let_def)

text \<open>Instance: an archive with the single member \<open>ATTRIBUTES.csv\<close>.\<close>

theorem extract_zip_length_witness:
  "files junk_archive [''nic'', ''a.zip''] = Some (Bytes ''junk'') \<and>
   zipfile online (Bytes ''junk'') = ZipOk [(''ATTRIBUTES.csv'', ''x'')] \<and>
   fst (extract_zip online default_downloader [''nic'', ''a.zip''] [''nic'', ''a''] junk_archive)
     = Inr [[''nic'', ''a'', ''ATTRIBUTES.csv'']]"
proof -
  have f: "files junk_archive [''nic'', ''a.zip''] = Some (Bytes ''junk'')"
    by (simp add: junk_archive_def)
  have z: "zipfile online (Bytes ''junk'') = ZipOk [(''ATTRIBUTES.csv'', ''x'')]"
    by (simp add: online_def)
  have p: "map (pjoin [''nic'', ''a'']) (map fst [(''ATTRIBUTES.csv'', ''x'')])
             = [[''nic'', ''a'', ''ATTRIBUTES.csv'']]"
    by (simp add: pjoin_def startswith_def)
  from extract_zip_length [OF f z, of default_downloader "[''nic'', ''a'']"]
  have "fst (extract_zip online default_downloader [''nic'', ''a.zip''] [''nic'', ''a''] junk_archive)
     = Inr [[''nic'', ''a'', ''ATTRIBUTES.csv'']]"
    unfolding p by auto
  with f z show ?thesis by (intro conjI)
qed

subsection \<open>C9: the failed-bank step tries both mirrors and reports the conjunction\<close>

text \<open>
  C9. \<open>download_fdic_failed_banks\<close> calls \<open>download_file\<close> for the primary URL and then,
  whatever the first call returned, for the legacy URL (the GET trace grows by exactly these
  two requests, in this order); it returns normally, and its boolean is the conjunction of
  the two values \<open>download_file\<close> returned.
\<close>

theorem download_fdic_failed_banks_both_mirrors:
  "let w0 = banner self ''Downloading FDIC Failed Banks Data'' w;
       r1 = download_file e self ''https://www.fdic.gov/bank-failures/download-data.csv''
              (output_dir self @ [''fdic'', ''fdic_failed_banks.csv''])
              ''FDIC Failed Bank List'' w0;
       r2 = download_file e self
              ''https://www.fdic.gov/resources/resolutions/bank-failures/failed-bank-list/banklist.csv''
              (output_dir self @ [''fdic'', ''fdic_failed_banks_legacy.csv''])
              ''FDIC Failed Bank List (Legacy URL)'' (snd r1)
   in download_fdic_failed_banks e self w = (Inr (fst r1 \<and> fst r2), snd r2) \<and>
      gets (snd r2) = gets w @
        [''https://www.fdic.gov/bank-failures/download-data.csv'',
         ''https://www.fdic.gov/resources/resolutions/bank-failures/failed-bank-list/banklist.csv'']"
  by (simp add: download_fdic_failed_banks_def lookup_source_def DATA_SOURCES_def Let_def
      split_beta)

subsection \<open>C10: the verbosity setting changes nothing but the output\<close>

text \<open>
  C10. For the same environment (network responses, zip reader, clock), the same arguments
  and the same starting world, a run with \<open>--quiet\<close> and a run without it end with the same
  directories, the same files with the same contents and the same GET requests, and return
  the same value (the booleans, the result map, or the exception that ended the run). This
  holds for \<open>main\<close> with any flags and for every method of the downloader; only \<open>out\<close>
  differs.
\<close>

theorem verbosity_only_affects_output:
  "observed (main e (a\<lparr>arg_quiet := True\<rparr>) w) = observed (main e (a\<lparr>arg_quiet := False\<rparr>) w) \<and>
   observed (download_all e (self\<lparr>verbose := False\<rparr>) w)
     = observed (download_all e (self\<lparr>verbose := True\<rparr>) w) \<and>
   observed (download_fdic_failed_banks e (self\<lparr>verbose := False\<rparr>) w)
     = observed (download_fdic_failed_banks e (self\<lparr>verbose := True\<rparr>) w) \<and>
   observed (download_fdic_failures_api e (self\<lparr>verbose := False\<rparr>) w)
     = observed (download_fdic_failures_api e (self\<lparr>verbose := True\<rparr>) w) \<and>
   observed (download_nic_data e (self\<lparr>verbose := False\<rparr>) w)
     = observed (download_nic_data e (self\<lparr>verbose := True\<rparr>) w) \<and>
   observed (download_chicago_fed_data (self\<lparr>verbose := False\<rparr>) w)
     = observed (download_chicago_fed_data (self\<lparr>verbose := True\<rparr>) w) \<and>
   observed (download_cdr_info (self\<lparr>verbose := False\<rparr>) w)
     = observed (download_cdr_info (self\<lparr>verbose := True\<rparr>) w) \<and>
   observed (download_file e (self\<lparr>verbose := False\<rparr>) u p d w)
     = observed (download_file e (self\<lparr>verbose := True\<rparr>) u p d w) \<and>
   observed (extract_zip e (self\<lparr>verbose := False\<rparr>) z x w)
     = observed (extract_zip e (self\<lparr>verbose := True\<rparr>) z x w)"
proof -
  have q: "quiet (self\<lparr>verbose := False\<rparr>) = quiet (self\<lparr>verbose := True\<rparr>)"
    by (simp add: quiet_def)
  have 1: "muted (main e (a\<lparr>arg_quiet := True\<rparr>) w) = muted (main e (a\<lparr>arg_quiet := False\<rparr>) w)"
    by (rule main_indep)
  have 2: "muted (download_all e (self\<lparr>verbose := False\<rparr>) w)
     = muted (download_all e (self\<lparr>verbose := True\<rparr>) w)"
    by (simp only: download_all_mute q)
  have 3: "muted (download_fdic_failed_banks e (self\<lparr>verbose := False\<rparr>) w)
     = muted (download_fdic_failed_banks e (self\<lparr>verbose := True\<rparr>) w)"
    by (simp only: download_fdic_failed_banks_mute q)
  have 4: "muted (download_fdic_failures_api e (self\<lparr>verbose := False\<rparr>) w)
     = muted (download_fdic_failures_api e (self\<lparr>verbose := True\<rparr>) w)"
    by (simp only: download_fdic_failures_api_mute q)
  have 5: "muted (download_nic_data e (self\<lparr>verbose := False\<rparr>) w)
     = muted (download_nic_data e (self\<lparr>verbose := True\<rparr>) w)"
    by (simp only: download_nic_data_mute q)
  have 6: "muted (download_chicago_fed_data (self\<lparr>verbose := False\<rparr>) w)
     = muted (download_chicago_fed_data (self\<lparr>verbose := True\<rparr>) w)"
    by (simp only: download_chicago_fed_data_mute q)
  have 7: "muted (download_cdr_info (self\<lparr>verbose := False\<rparr>) w)
     = muted (download_cdr_info (self\<lparr>verbose := True\<rparr>) w)"
    by (simp only: download_cdr_info_mute q)
  have 8: "muted (download_file e (self\<lparr>verbose := False\<rparr>) u p d w)
     = muted (download_file e (self\<lparr>verbose := True\<rparr>) u p d w)"
    by (simp only: download_file_mute q)
  have 9: "muted (extract_zip e (self\<lparr>verbose := False\<rparr>) z x w)
     = muted (extract_zip e (self\<lparr>verbose := True\<rparr>) z x w)"
    by (simp only: extract_zip_mute q)
  show ?thesis
    unfolding observed_muted using 1 2 3 4 5 6 7 8 9 by blast
qed

end
